theory Spec2Isabelle
  imports Complex_Main
begin

section \<open>Data model of \<open>conclave.py\<close>\<close>

text \<open>
  The classes \<open>Voo\<close>, \<open>Pessoa\<close> and \<open>Cromossomo\<close> are records. A \<open>datetime\<close> is the
  integer number of microseconds since a fixed epoch (its resolution), a \<open>timedelta\<close> the
  difference of two of them. Python's \<open>float\<close> prices, weights and rates are read as
  real numbers, so rounding is left out of the model.
\<close>

record voo =
  origem :: string
  destino :: string
  horario_saida :: int
  horario_chegada :: int
  preco :: real

text \<open>The two menus of a \<open>Pessoa\<close> carry the names of the constructor's parameters; the
  attributes \<open>voos_ida\<close> and \<open>voos_volta\<close> are kept for the chromosome.\<close>

record pessoa =
  nome :: string
  origem_cidade :: string
  voos_ida_disponiveis :: "voo list"
  voos_volta_disponiveis :: "voo list"

record cromossomo =
  voos_ida :: "voo list"
  voos_volta :: "voo list"
  fitness :: real

text \<open>\<open>Cromossomo.__init__\<close>: the fitness of a new chromosome is 0.\<close>

definition Cromossomo :: "voo list \<Rightarrow> voo list \<Rightarrow> cromossomo" where
  "Cromossomo ida volta = \<lparr>voos_ida = ida, voos_volta = volta, fitness = 0\<rparr>"

subsection \<open>Exceptions\<close>

datatype erro = ValueError | IndexError | AttributeError

definition bindE :: "'e + 'a \<Rightarrow> ('a \<Rightarrow> 'e + 'b) \<Rightarrow> 'e + 'b" where
  "bindE m f = (case m of Inl e \<Rightarrow> Inl e | Inr x \<Rightarrow> f x)"

text \<open>\<open>xs[i]\<close> for a non-negative index: out of range raises \<open>IndexError\<close>.\<close>

definition obter :: "'a list \<Rightarrow> nat \<Rightarrow> erro + 'a" where
  "obter xs i = (if i < length xs then Inr (xs ! i) else Inl IndexError)"

text \<open>\<open>xs[i] = v\<close> for a non-negative index.\<close>

definition atribuir :: "'a list \<Rightarrow> nat \<Rightarrow> 'a \<Rightarrow> erro + 'a list" where
  "atribuir xs i v = (if i < length xs then Inr (xs[i := v]) else Inl IndexError)"

subsection \<open>The random source\<close>

text \<open>
  The module \<open>random\<close> is an infinite sequence of raw draws, consumed in order; a
  property proved for every sequence holds for every outcome of the generator.
  \<open>random.random()\<close> is a multiple of \<open>2^-53\<close> in \<open>[0, 1)\<close>, \<open>randint(a, b)\<close> raises
  \<open>ValueError\<close> on an empty range, \<open>choice\<close> raises \<open>IndexError\<close> on an empty list and
  \<open>sample\<close> raises \<open>ValueError\<close> when it is asked for more elements than there are.
\<close>

type_synonym rng = "nat \<Rightarrow> nat"

definition proximo :: "rng \<Rightarrow> nat \<times> rng" where
  "proximo g = (g 0, \<lambda>i. g (Suc i))"

definition random_random :: "rng \<Rightarrow> real \<times> rng" where
  "random_random g = (case proximo g of (r, g') \<Rightarrow> (real (r mod 2 ^ 53) / 2 ^ 53, g'))"

definition random_randint :: "int \<Rightarrow> int \<Rightarrow> rng \<Rightarrow> erro + (int \<times> rng)" where
  "random_randint a b g =
     (if b < a then Inl ValueError
      else case proximo g of (r, g') \<Rightarrow> Inr (a + int (r mod nat (b - a + 1)), g'))"

definition random_choice :: "'a list \<Rightarrow> rng \<Rightarrow> erro + ('a \<times> rng)" where
  "random_choice xs g =
     (if xs = [] then Inl IndexError
      else case proximo g of (r, g') \<Rightarrow> Inr (xs ! (r mod length xs), g'))"

fun random_sample :: "'a list \<Rightarrow> nat \<Rightarrow> rng \<Rightarrow> erro + ('a list \<times> rng)" where
  "random_sample xs 0 g = Inr ([], g)"
| "random_sample xs (Suc k) g =
     (if xs = [] then Inl ValueError
      else case proximo g of (r, g') \<Rightarrow>
        (let i = r mod length xs in
         bindE (random_sample (take i xs @ drop (Suc i) xs) k g')
           (\<lambda>(ys, g''). Inr (xs ! i # ys, g''))))"

text \<open>A sequence that starts with the given draws and goes on with zeros.\<close>

definition sorteios :: "nat list \<Rightarrow> rng" where
  "sorteios rs = (\<lambda>i. if i < length rs then rs ! i else 0)"

section \<open>Crossover\<close>

definition cruzamento_ponto_unico ::
  "cromossomo \<Rightarrow> cromossomo \<Rightarrow> rng \<Rightarrow> erro + ((cromossomo \<times> cromossomo) \<times> rng)" where
  "cruzamento_ponto_unico pai1 pai2 g =
     (let n_genes = length (voos_ida pai1) in
      if n_genes = 0 then Inr ((Cromossomo [] [], Cromossomo [] []), g)
      else bindE (random_randint 1 (int n_genes - 1) g) (\<lambda>(p, g').
        let ponto_corte = nat p;
            filho1_ida = take ponto_corte (voos_ida pai1) @ drop ponto_corte (voos_ida pai2);
            filho1_volta = take ponto_corte (voos_volta pai1) @ drop ponto_corte (voos_volta pai2);
            filho2_ida = take ponto_corte (voos_ida pai2) @ drop ponto_corte (voos_ida pai1);
            filho2_volta = take ponto_corte (voos_volta pai2) @ drop ponto_corte (voos_volta pai1)
        in Inr ((Cromossomo filho1_ida filho1_volta, Cromossomo filho2_ida filho2_volta), g')))"

text \<open>\<open>xs[a:b]\<close> for \<open>0 \<le> a\<close> and \<open>0 \<le> b\<close>.\<close>

definition fatia :: "'a list \<Rightarrow> nat \<Rightarrow> nat \<Rightarrow> 'a list" where
  "fatia xs a b = drop a (take b xs)"

definition cruzamento_dois_pontos ::
  "cromossomo \<Rightarrow> cromossomo \<Rightarrow> rng \<Rightarrow> erro + ((cromossomo \<times> cromossomo) \<times> rng)" where
  "cruzamento_dois_pontos pai1 pai2 g =
     (let n_genes = length (voos_ida pai1) in
      if n_genes < 3 then cruzamento_ponto_unico pai1 pai2 g
      else bindE (random_sample [1..<n_genes] 2 g) (\<lambda>(pts, g').
        let ponto1 = min (pts ! 0) (pts ! 1);
            ponto2 = max (pts ! 0) (pts ! 1);
            filho1_ida = take ponto1 (voos_ida pai1) @ fatia (voos_ida pai2) ponto1 ponto2
                           @ drop ponto2 (voos_ida pai1);
            filho1_volta = take ponto1 (voos_volta pai1) @ fatia (voos_volta pai2) ponto1 ponto2
                           @ drop ponto2 (voos_volta pai1);
            filho2_ida = take ponto1 (voos_ida pai2) @ fatia (voos_ida pai1) ponto1 ponto2
                           @ drop ponto2 (voos_ida pai2);
            filho2_volta = take ponto1 (voos_volta pai2) @ fatia (voos_volta pai1) ponto1 ponto2
                           @ drop ponto2 (voos_volta pai2)
        in Inr ((Cromossomo filho1_ida filho1_volta, Cromossomo filho2_ida filho2_volta), g')))"

text \<open>The four lists a crossover loop appends to: \<open>filho1_ida\<close>, \<open>filho1_volta\<close>,
  \<open>filho2_ida\<close>, \<open>filho2_volta\<close>.\<close>

type_synonym filhos = "voo list \<times> voo list \<times> voo list \<times> voo list"

fun uniforme_laco ::
  "cromossomo \<Rightarrow> cromossomo \<Rightarrow> nat list \<Rightarrow> filhos \<Rightarrow> rng \<Rightarrow> erro + (filhos \<times> rng)" where
  "uniforme_laco pai1 pai2 [] acc g = Inr (acc, g)"
| "uniforme_laco pai1 pai2 (i # is) (f1i, f1v, f2i, f2v) g =
     (case random_random g of (u, g') \<Rightarrow>
       bindE (obter (voos_ida pai1) i) (\<lambda>i1.
       bindE (obter (voos_volta pai1) i) (\<lambda>v1.
       bindE (obter (voos_ida pai2) i) (\<lambda>i2.
       bindE (obter (voos_volta pai2) i) (\<lambda>v2.
         if u < 0.5
         then uniforme_laco pai1 pai2 is (f1i @ [i1], f1v @ [v1], f2i @ [i2], f2v @ [v2]) g'
         else uniforme_laco pai1 pai2 is (f1i @ [i2], f1v @ [v2], f2i @ [i1], f2v @ [v1]) g')))))"

definition cruzamento_uniforme ::
  "cromossomo \<Rightarrow> cromossomo \<Rightarrow> rng \<Rightarrow> erro + ((cromossomo \<times> cromossomo) \<times> rng)" where
  "cruzamento_uniforme pai1 pai2 g =
     (let n_genes = length (voos_ida pai1) in
      if n_genes = 0 then Inr ((Cromossomo [] [], Cromossomo [] []), g)
      else bindE (uniforme_laco pai1 pai2 [0..<n_genes] ([], [], [], []) g)
        (\<lambda>((f1i, f1v, f2i, f2v), g'). Inr ((Cromossomo f1i f1v, Cromossomo f2i f2v), g')))"

fun custo_laco :: "cromossomo \<Rightarrow> cromossomo \<Rightarrow> nat list \<Rightarrow> filhos \<Rightarrow> erro + filhos" where
  "custo_laco pai1 pai2 [] acc = Inr acc"
| "custo_laco pai1 pai2 (i # is) (f1i, f1v, f2i, f2v) =
     bindE (obter (voos_ida pai1) i) (\<lambda>voo_ida_pai1.
     bindE (obter (voos_ida pai2) i) (\<lambda>voo_ida_pai2.
     bindE (obter (voos_volta pai1) i) (\<lambda>voo_volta_pai1.
     bindE (obter (voos_volta pai2) i) (\<lambda>voo_volta_pai2.
       let (f1i', f2i') =
             (if preco voo_ida_pai1 \<le> preco voo_ida_pai2
              then (f1i @ [voo_ida_pai1], f2i @ [voo_ida_pai2])
              else (f1i @ [voo_ida_pai2], f2i @ [voo_ida_pai1]));
           (f1v', f2v') =
             (if preco voo_volta_pai1 \<le> preco voo_volta_pai2
              then (f1v @ [voo_volta_pai1], f2v @ [voo_volta_pai2])
              else (f1v @ [voo_volta_pai2], f2v @ [voo_volta_pai1]))
       in custo_laco pai1 pai2 is (f1i', f1v', f2i', f2v')))))"

definition cruzamento_baseado_custo ::
  "cromossomo \<Rightarrow> cromossomo \<Rightarrow> rng \<Rightarrow> erro + ((cromossomo \<times> cromossomo) \<times> rng)" where
  "cruzamento_baseado_custo pai1 pai2 g =
     (let n_genes = length (voos_ida pai1) in
      if n_genes = 0 then Inr ((Cromossomo [] [], Cromossomo [] []), g)
      else bindE (custo_laco pai1 pai2 [0..<n_genes] ([], [], [], []))
        (\<lambda>(f1i, f1v, f2i, f2v). Inr ((Cromossomo f1i f1v, Cromossomo f2i f2v), g)))"

text \<open>\<open>min\<close> and \<open>max\<close> of a list of instants. Both raise \<open>ValueError\<close> on an empty
  list; every call below stands behind a test that the list is not empty.\<close>

fun lista_min :: "int list \<Rightarrow> int" where
  "lista_min (x # xs) = foldl min x xs"

fun lista_max :: "int list \<Rightarrow> int" where
  "lista_max (x # xs) = foldl max x xs"

text \<open>\<open>timedelta.total_seconds() / 3600\<close>.\<close>

definition horas :: "int \<Rightarrow> real" where
  "horas d = real_of_int d / 1000000 / 3600"

fun horario_laco ::
  "cromossomo \<Rightarrow> cromossomo \<Rightarrow> nat list \<Rightarrow> voo list \<times> voo list \<Rightarrow> rng
     \<Rightarrow> erro + ((voo list \<times> voo list) \<times> rng)" where
  "horario_laco pai1 pai2 [] acc g = Inr (acc, g)"
| "horario_laco pai1 pai2 (i # is) (f1v, f2v) g =
     (case random_random g of (u, g') \<Rightarrow>
       bindE (obter (voos_volta pai1) i) (\<lambda>v1.
       bindE (obter (voos_volta pai2) i) (\<lambda>v2.
         if u < 0.5 then horario_laco pai1 pai2 is (f1v @ [v1], f2v @ [v2]) g'
         else horario_laco pai1 pai2 is (f1v @ [v2], f2v @ [v1]) g')))"

definition cruzamento_baseado_horario ::
  "cromossomo \<Rightarrow> cromossomo \<Rightarrow> rng \<Rightarrow> erro + ((cromossomo \<times> cromossomo) \<times> rng)" where
  "cruzamento_baseado_horario pai1 pai2 g =
     (let n_genes = length (voos_ida pai1) in
      if n_genes = 0 then Inr ((Cromossomo [] [], Cromossomo [] []), g)
      else
        let horarios_chegada_pai1 = map horario_chegada (voos_ida pai1);
            horarios_chegada_pai2 = map horario_chegada (voos_ida pai2)
        in if horarios_chegada_pai1 = [] \<or> horarios_chegada_pai2 = []
           then cruzamento_uniforme pai1 pai2 g
           else
             let span_pai1 = horas (lista_max horarios_chegada_pai1 - lista_min horarios_chegada_pai1);
                 span_pai2 = horas (lista_max horarios_chegada_pai2 - lista_min horarios_chegada_pai2);
                 (filho1_ida, filho2_ida) =
                   (if span_pai1 \<le> span_pai2 then (voos_ida pai1, voos_ida pai2)
                    else (voos_ida pai2, voos_ida pai1))
             in bindE (horario_laco pai1 pai2 [0..<n_genes] ([], []) g)
                  (\<lambda>((filho1_volta, filho2_volta), g').
                     Inr ((Cromossomo filho1_ida filho1_volta,
                           Cromossomo filho2_ida filho2_volta), g')))"

text \<open>A chromosome of \<open>n\<close> genes per leg in which the gene at position \<open>i\<close> is on the menu
  of person \<open>i\<close> for that leg.\<close>

definition genes_do_cardapio :: "pessoa list \<Rightarrow> nat \<Rightarrow> cromossomo \<Rightarrow> bool" where
  "genes_do_cardapio ps n c \<longleftrightarrow>
     length (voos_ida c) = n \<and> length (voos_volta c) = n \<and> n \<le> length ps \<and>
     (\<forall>i<n. voos_ida c ! i \<in> set (voos_ida_disponiveis (ps ! i)) \<and>
            voos_volta c ! i \<in> set (voos_volta_disponiveis (ps ! i)))"

section \<open>The engine\<close>

text \<open>The attributes of \<open>AlgoritmoGenetico\<close>. \<open>melhor_fitness\<close> starts at
  \<open>float('-inf')\<close>, which is \<open>None\<close> here; the attribute \<open>destino\<close> is
  \<open>destino_encontro\<close>, its name being the one of a field of \<open>Voo\<close>.\<close>

record algoritmo =
  pessoas :: "pessoa list"
  destino_encontro :: string
  tamanho_populacao :: int
  taxa_mutacao :: real
  taxa_elite :: real
  geracoes_sem_melhoria_max :: int
  populacao :: "cromossomo list"
  melhor_fitness :: "real option"
  geracoes_sem_melhoria :: int
  peso_custo :: real
  peso_gap_chegada :: real
  peso_gap_saida :: real

text \<open>\<open>AlgoritmoGenetico.__init__\<close>.\<close>

definition AlgoritmoGenetico ::
  "pessoa list \<Rightarrow> string \<Rightarrow> int \<Rightarrow> real \<Rightarrow> real \<Rightarrow> int \<Rightarrow> real \<Rightarrow> real \<Rightarrow> real \<Rightarrow> algoritmo" where
  "AlgoritmoGenetico ps dest tam t_mut t_elite sem_max p_custo p_chegada p_saida =
     \<lparr>pessoas = ps, destino_encontro = dest, tamanho_populacao = tam, taxa_mutacao = t_mut,
      taxa_elite = t_elite, geracoes_sem_melhoria_max = sem_max, populacao = [],
      melhor_fitness = None, geracoes_sem_melhoria = 0, peso_custo = p_custo,
      peso_gap_chegada = p_chegada, peso_gap_saida = p_saida\<rparr>"

subsection \<open>Seeding\<close>

text \<open>The inner loop of \<open>gerar_populacao_inicial\<close>, over the persons.\<close>

fun escolher_voos ::
  "pessoa list \<Rightarrow> voo list \<times> voo list \<Rightarrow> rng \<Rightarrow> (erro \<times> rng) + ((voo list \<times> voo list) \<times> rng)" where
  "escolher_voos [] sel g = Inr (sel, g)"
| "escolher_voos (p # ps) (ida, volta) g =
     (if voos_ida_disponiveis p = [] then Inl (ValueError, g)
      else if voos_volta_disponiveis p = [] then Inl (ValueError, g)
      else case random_choice (voos_ida_disponiveis p) g of
             Inl e \<Rightarrow> Inl (e, g)
           | Inr (vi, g1) \<Rightarrow>
               (case random_choice (voos_volta_disponiveis p) g1 of
                  Inl e \<Rightarrow> Inl (e, g1)
                | Inr (vv, g2) \<Rightarrow> escolher_voos ps (ida @ [vi], volta @ [vv]) g2))"

text \<open>The outer loop, \<open>for _ in range(self.tamanho_populacao)\<close>, on the number of rounds
  left. An exception leaves the engine as it is at that moment.\<close>

fun gerar_laco :: "nat \<Rightarrow> algoritmo \<Rightarrow> rng \<Rightarrow> (erro \<times> algoritmo \<times> rng) + (algoritmo \<times> rng)" where
  "gerar_laco 0 ag g = Inr (ag, g)"
| "gerar_laco (Suc k) ag g =
     (case escolher_voos (pessoas ag) ([], []) g of
        Inl (e, g') \<Rightarrow> Inl (e, ag, g')
      | Inr ((ida, volta), g') \<Rightarrow>
          gerar_laco k (ag\<lparr>populacao := populacao ag @ [Cromossomo ida volta]\<rparr>) g')"

definition gerar_populacao_inicial ::
  "algoritmo \<Rightarrow> rng \<Rightarrow> (erro \<times> algoritmo \<times> rng) + (algoritmo \<times> rng)" where
  "gerar_populacao_inicial ag g =
     (if pessoas ag = [] then Inl (ValueError, ag, g)
      else gerar_laco (nat (tamanho_populacao ag)) (ag\<lparr>populacao := []\<rparr>) g)"

subsection \<open>Fitness\<close>

definition calcular_fitness :: "algoritmo \<Rightarrow> cromossomo \<Rightarrow> real" where
  "calcular_fitness ag c =
     (if voos_ida c = [] \<or> voos_volta c = [] then - 1000000000
      else
        let custo_total = foldl (+) 0 (map preco (voos_ida c @ voos_volta c));
            horarios_chegada_ida = map horario_chegada (voos_ida c);
            primeiro_chegada_ida = lista_min horarios_chegada_ida;
            ultimo_chegada_ida = lista_max horarios_chegada_ida;
            gap_chegada_ida = horas (ultimo_chegada_ida - primeiro_chegada_ida);
            horarios_saida_volta = map horario_saida (voos_volta c);
            primeiro_saida_volta = lista_min horarios_saida_volta;
            ultimo_saida_volta = lista_max horarios_saida_volta;
            gap_saida_volta = horas (ultimo_saida_volta - primeiro_saida_volta)
        in - (peso_custo ag * custo_total + peso_gap_chegada ag * gap_chegada_ida
              + peso_gap_saida ag * gap_saida_volta))"

definition avaliar_populacao :: "algoritmo \<Rightarrow> algoritmo" where
  "avaliar_populacao ag =
     ag\<lparr>populacao := map (\<lambda>c. c\<lparr>fitness := calcular_fitness ag c\<rparr>) (populacao ag)\<rparr>"

subsection \<open>Tournament selection\<close>

text \<open>
  A chromosome of the population is known by its position: the population never holds
  one object twice, so the identity test \<open>pai1 == pai2\<close> of \<open>evoluir_geracao\<close> is the
  equality of two positions. \<open>sort(key=..., reverse=True)\<close> is stable, as is \<open>sort_key\<close>
  on the negated key. The method is only ever called with its default parameters,
  \<open>tamanho_torneio=3\<close> and \<open>taxa_nao_melhor=0.05\<close>.
\<close>

definition selecao_torneio :: "cromossomo list \<Rightarrow> rng \<Rightarrow> erro + (nat option \<times> rng)" where
  "selecao_torneio pop g =
     (if length pop < 2 then Inr (if pop \<noteq> [] then Some 0 else None, g)
      else
        let tamanho_torneio = min 3 (length pop) in
        bindE (random_sample [0..<length pop] tamanho_torneio g) (\<lambda>(amostra, g1).
          let competidores = sort_key (\<lambda>i. - fitness (pop ! i)) amostra in
          case random_random g1 of (u, g2) \<Rightarrow>
            if u < 0.05 \<and> length competidores > 1
            then bindE (random_choice (tl competidores) g2) (\<lambda>(i, g3). Inr (Some i, g3))
            else Inr (Some (hd competidores), g2)))"

subsection \<open>Mutation\<close>

text \<open>One replacement of the mutation loops: with a draw below the rate and a menu that
  is not empty, the gene at position \<open>i\<close> becomes a random member of the menu.\<close>

definition mutar_gene ::
  "real \<Rightarrow> voo list \<Rightarrow> voo list \<Rightarrow> nat \<Rightarrow> rng \<Rightarrow> erro + (voo list \<times> rng)" where
  "mutar_gene taxa cardapio genes i g =
     (case random_random g of (u, g1) \<Rightarrow>
        if u < taxa then
          (if cardapio \<noteq> [] then
             bindE (random_choice cardapio g1) (\<lambda>(v, g2).
             bindE (atribuir genes i v) (\<lambda>genes'. Inr (genes', g2)))
           else Inr (genes, g1))
        else Inr (genes, g1))"

text \<open>The loop \<open>for i in range(len(novo_cromossomo.voos_ida))\<close> of both mutations, at
  rate \<open>taxa\<close>.\<close>

fun mutacao_laco ::
  "algoritmo \<Rightarrow> real \<Rightarrow> nat list \<Rightarrow> cromossomo \<Rightarrow> rng \<Rightarrow> erro + (cromossomo \<times> rng)" where
  "mutacao_laco ag taxa [] c g = Inr (c, g)"
| "mutacao_laco ag taxa (i # is) c g =
     bindE (obter (pessoas ag) i) (\<lambda>pessoa_associada.
     bindE (mutar_gene taxa (voos_ida_disponiveis pessoa_associada) (voos_ida c) i g) (\<lambda>(ida, g1).
     bindE (mutar_gene taxa (voos_volta_disponiveis pessoa_associada) (voos_volta c) i g1) (\<lambda>(volta, g2).
       mutacao_laco ag taxa is (c\<lparr>voos_ida := ida, voos_volta := volta\<rparr>) g2)))"

definition mutacao_tradicional :: "algoritmo \<Rightarrow> cromossomo \<Rightarrow> rng \<Rightarrow> erro + (cromossomo \<times> rng)" where
  "mutacao_tradicional ag cromossomo g =
     (let novo_cromossomo = cromossomo in
      mutacao_laco ag (taxa_mutacao ag) [0..<length (voos_ida novo_cromossomo)] novo_cromossomo g)"

text \<open>\<open>list.index\<close>: the first position of a value, \<open>ValueError\<close> when it is absent.\<close>

fun indice :: "'a list \<Rightarrow> 'a \<Rightarrow> erro + nat" where
  "indice [] x = Inl ValueError"
| "indice (y # ys) x = (if y = x then Inr 0 else bindE (indice ys x) (\<lambda>k. Inr (Suc k)))"

text \<open>The repair of one leg in \<open>mutacao_inteligente\<close>: \<open>horarios\<close> are the instants of the
  chromosome received, \<open>alvo\<close> the extreme one whose position is repaired, \<open>aceita\<close> the
  test on the alternatives, \<open>genes\<close> the gene list of the copy.\<close>

definition reparar ::
  "algoritmo \<Rightarrow> int list \<Rightarrow> int \<Rightarrow> (pessoa \<Rightarrow> voo list) \<Rightarrow> (voo \<Rightarrow> bool) \<Rightarrow> voo list \<Rightarrow> rng
     \<Rightarrow> erro + (voo list \<times> rng)" where
  "reparar ag horarios alvo cardapio aceita genes g =
     bindE (indice horarios alvo) (\<lambda>idx.
     bindE (obter (pessoas ag) idx) (\<lambda>pessoa_alvo.
       let voos_alternativos = filter aceita (cardapio pessoa_alvo) in
       if voos_alternativos \<noteq> [] then
         (case random_random g of (u, g1) \<Rightarrow>
            if u < 0.6 then
              bindE (random_choice voos_alternativos g1) (\<lambda>(v, g2).
              bindE (atribuir genes idx v) (\<lambda>genes'. Inr (genes', g2)))
            else Inr (genes, g1))
       else Inr (genes, g)))"

text \<open>The first strategy: the person who arrives last gets an earlier outbound flight.\<close>

definition reparar_chegada :: "algoritmo \<Rightarrow> cromossomo \<Rightarrow> voo list \<Rightarrow> rng \<Rightarrow> erro + (voo list \<times> rng)" where
  "reparar_chegada ag cromossomo genes g =
     (let horarios_chegada_ida = map horario_chegada (voos_ida cromossomo) in
      if length horarios_chegada_ida > 1 then
        let primeiro_chegada = lista_min horarios_chegada_ida;
            ultimo_chegada = lista_max horarios_chegada_ida
        in if horas (ultimo_chegada - primeiro_chegada) > 1
           then reparar ag horarios_chegada_ida ultimo_chegada voos_ida_disponiveis
                  (\<lambda>v. horario_chegada v < ultimo_chegada) genes g
           else Inr (genes, g)
      else Inr (genes, g))"

text \<open>The second strategy: the person who leaves first gets a later return flight.\<close>

definition reparar_saida :: "algoritmo \<Rightarrow> cromossomo \<Rightarrow> voo list \<Rightarrow> rng \<Rightarrow> erro + (voo list \<times> rng)" where
  "reparar_saida ag cromossomo genes g =
     (let horarios_saida_volta = map horario_saida (voos_volta cromossomo) in
      if length horarios_saida_volta > 1 then
        let primeiro_saida = lista_min horarios_saida_volta;
            ultimo_saida = lista_max horarios_saida_volta
        in if horas (ultimo_saida - primeiro_saida) > 1
           then reparar ag horarios_saida_volta primeiro_saida voos_volta_disponiveis
                  (\<lambda>v. horario_saida v > primeiro_saida) genes g
           else Inr (genes, g)
      else Inr (genes, g))"

text \<open>Both repairs read the instants of the chromosome received and write into the
  copy; the third strategy is the random loop at a fifth of the rate.\<close>

definition mutacao_inteligente :: "algoritmo \<Rightarrow> cromossomo \<Rightarrow> rng \<Rightarrow> erro + (cromossomo \<times> rng)" where
  "mutacao_inteligente ag cromossomo g =
     (let novo_cromossomo = cromossomo in
      if pessoas ag = [] then Inr (novo_cromossomo, g)
      else
        bindE (reparar_chegada ag cromossomo (voos_ida novo_cromossomo) g) (\<lambda>(ida, g1).
        bindE (reparar_saida ag cromossomo (voos_volta novo_cromossomo) g1) (\<lambda>(volta, g2).
          mutacao_laco ag (taxa_mutacao ag * 0.2) [0..<length ida]
            (novo_cromossomo\<lparr>voos_ida := ida, voos_volta := volta\<rparr>) g2)))"

subsection \<open>One generation\<close>

text \<open>\<open>int(x)\<close> of a float rounds towards zero; \<open>xs[:n]\<close> with a negative \<open>n\<close> drops
  the last \<open>-n\<close> elements.\<close>

definition py_int :: "real \<Rightarrow> int" where
  "py_int x = (if 0 \<le> x then \<lfloor>x\<rfloor> else \<lceil>x\<rceil>)"

definition prefixo :: "'a list \<Rightarrow> int \<Rightarrow> 'a list" where
  "prefixo xs n = (if n < 0 then take (nat (int (length xs) + n)) xs else take (nat n) xs)"

definition elite_size :: "algoritmo \<Rightarrow> int" where
  "elite_size ag = py_int (taxa_elite ag * real_of_int (tamanho_populacao ag))"

text \<open>The choice of the crossover by its name; an unknown name is the uniform one.\<close>

definition cruzar ::
  "string \<Rightarrow> cromossomo \<Rightarrow> cromossomo \<Rightarrow> rng \<Rightarrow> erro + ((cromossomo \<times> cromossomo) \<times> rng)" where
  "cruzar tipo_cruzamento pai1 pai2 g =
     (if tipo_cruzamento = ''ponto_unico'' then cruzamento_ponto_unico pai1 pai2 g
      else if tipo_cruzamento = ''dois_pontos'' then cruzamento_dois_pontos pai1 pai2 g
      else if tipo_cruzamento = ''uniforme'' then cruzamento_uniforme pai1 pai2 g
      else if tipo_cruzamento = ''custo'' then cruzamento_baseado_custo pai1 pai2 g
      else if tipo_cruzamento = ''horario'' then cruzamento_baseado_horario pai1 pai2 g
      else cruzamento_uniforme pai1 pai2 g)"

definition mutar :: "algoritmo \<Rightarrow> bool \<Rightarrow> cromossomo \<Rightarrow> rng \<Rightarrow> erro + (cromossomo \<times> rng)" where
  "mutar ag usar_mutacao_inteligente filho g =
     (if usar_mutacao_inteligente then mutacao_inteligente ag filho g
      else mutacao_tradicional ag filho g)"

text \<open>The body of the \<open>while\<close> loop after the parents are there: crossover, then the
  mutation of both children.\<close>

definition gerar_filhos ::
  "algoritmo \<Rightarrow> string \<Rightarrow> bool \<Rightarrow> cromossomo \<Rightarrow> cromossomo \<Rightarrow> rng
     \<Rightarrow> erro + ((cromossomo \<times> cromossomo) \<times> rng)" where
  "gerar_filhos ag tipo_cruzamento usar_mutacao_inteligente pai1 pai2 g =
     bindE (cruzar tipo_cruzamento pai1 pai2 g) (\<lambda>((filho1, filho2), g1).
     bindE (mutar ag usar_mutacao_inteligente filho1 g1) (\<lambda>(filho1', g2).
     bindE (mutar ag usar_mutacao_inteligente filho2 g2) (\<lambda>(filho2', g3).
       Inr ((filho1', filho2'), g3))))"

text \<open>The selection of the two parents; \<open>None\<close> is the \<open>break\<close> of the loop. A second
  parent that is \<open>None\<close> after the repeated selection would fail at its first attribute.\<close>

definition selecionar_pais ::
  "cromossomo list \<Rightarrow> rng \<Rightarrow> erro + ((nat \<times> nat) option \<times> rng)" where
  "selecionar_pais pop g =
     bindE (selecao_torneio pop g) (\<lambda>(pai1, g1).
     bindE (selecao_torneio pop g1) (\<lambda>(pai2, g2).
       case (pai1, pai2) of
         (Some i1, Some i2) \<Rightarrow>
           if i1 = i2 \<and> length pop > 1
           then bindE (selecao_torneio pop g2) (\<lambda>(pai2', g3).
                  case pai2' of None \<Rightarrow> Inl AttributeError
                              | Some i2' \<Rightarrow> Inr (Some (i1, i2'), g3))
           else Inr (Some (i1, i2), g2)
       | _ \<Rightarrow> Inr (None, g2)))"

function preencher ::
  "algoritmo \<Rightarrow> string \<Rightarrow> bool \<Rightarrow> cromossomo list \<Rightarrow> rng \<Rightarrow> erro + (cromossomo list \<times> rng)" where
  "preencher ag tipo_cruzamento usar_mutacao_inteligente nova_populacao g =
     (if int (length nova_populacao) < tamanho_populacao ag then
        (case selecionar_pais (populacao ag) g of
           Inl e \<Rightarrow> Inl e
         | Inr (None, g1) \<Rightarrow> Inr (nova_populacao, g1)
         | Inr (Some (i1, i2), g1) \<Rightarrow>
             (case gerar_filhos ag tipo_cruzamento usar_mutacao_inteligente
                     (populacao ag ! i1) (populacao ag ! i2) g1 of
                Inl e \<Rightarrow> Inl e
              | Inr ((filho1, filho2), g2) \<Rightarrow>
                  preencher ag tipo_cruzamento usar_mutacao_inteligente
                    (nova_populacao @ [filho1, filho2]) g2))
      else Inr (nova_populacao, g))"
  by pat_completeness auto
termination
  by (relation "measure (\<lambda>(ag, t, u, nova, g). nat (tamanho_populacao ag - int (length nova)))") auto

declare preencher.simps [simp del]

definition evoluir_geracao ::
  "algoritmo \<Rightarrow> string \<Rightarrow> bool \<Rightarrow> rng \<Rightarrow> erro + (algoritmo \<times> rng)" where
  "evoluir_geracao ag tipo_cruzamento usar_mutacao_inteligente g =
     (let ag1 = ag\<lparr>populacao := sort_key (\<lambda>c. - fitness c) (populacao ag)\<rparr>;
          nova_populacao = prefixo (populacao ag1) (elite_size ag1)
      in bindE (preencher ag1 tipo_cruzamento usar_mutacao_inteligente nova_populacao g)
           (\<lambda>(nova, g'). Inr (ag1\<lparr>populacao := prefixo nova (tamanho_populacao ag1)\<rparr>, g')))"

subsection \<open>The run\<close>

text \<open>\<open>max(self.populacao, key=lambda x: x.fitness)\<close>: the first of the best, and
  \<open>ValueError\<close> on an empty population.\<close>

fun max_por_fitness :: "cromossomo list \<Rightarrow> erro + cromossomo" where
  "max_por_fitness [] = Inl ValueError"
| "max_por_fitness (c # cs) = Inr (foldl (\<lambda>m x. if fitness m < fitness x then x else m) c cs)"

text \<open>Called with its defaults only: \<open>janela=20\<close> and \<open>tolerancia=0.001\<close>.\<close>

definition criterio_parada_avancado :: "real list \<Rightarrow> bool" where
  "criterio_parada_avancado historico_fitness =
     (let janela = 20; tolerancia = 1 / 1000 in
      if length historico_fitness < janela then False
      else
        let fitness_atual = last historico_fitness;
            fitness_anterior = historico_fitness ! (length historico_fitness - janela)
        in if \<bar>fitness_anterior\<bar> < 1 / 10 ^ 9
           then \<bar>fitness_atual - fitness_anterior\<bar> < tolerancia * \<bar>fitness_anterior\<bar> + 1 / 10 ^ 9
           else \<bar>(fitness_atual - fitness_anterior) / fitness_anterior\<bar> < tolerancia)"

text \<open>The state of the loop of \<open>executar\<close>: the engine, the two histories and the random
  source.\<close>

record execucao =
  motor :: algoritmo
  historico_fitness :: "real list"
  historico_custo :: "real list"
  fonte :: rng

text \<open>The body of the loop; the flag is \<open>True\<close> when the body ends in \<open>break\<close>.\<close>

definition geracao ::
  "string \<Rightarrow> bool \<Rightarrow> execucao \<Rightarrow> erro + (bool \<times> execucao)" where
  "geracao tipo_cruzamento usar_mutacao_inteligente s =
     (let ag = avaliar_populacao (motor s) in
      bindE (max_por_fitness (populacao ag)) (\<lambda>melhor_atual.
        let hf = historico_fitness s @ [fitness melhor_atual];
            custo_melhor_atual =
              foldl (+) 0 (map preco (voos_ida melhor_atual @ voos_volta melhor_atual));
            hc = historico_custo s @ [custo_melhor_atual];
            ag1 = (if (case melhor_fitness ag of None \<Rightarrow> True
                                              | Some m \<Rightarrow> m < fitness melhor_atual)
                   then ag\<lparr>melhor_fitness := Some (fitness melhor_atual),
                           geracoes_sem_melhoria := 0\<rparr>
                   else ag\<lparr>geracoes_sem_melhoria := geracoes_sem_melhoria ag + 1\<rparr>);
            s1 = s\<lparr>motor := ag1, historico_fitness := hf, historico_custo := hc\<rparr>
        in if criterio_parada_avancado hf then Inr (True, s1)
           else if geracoes_sem_melhoria_max ag1 \<le> geracoes_sem_melhoria ag1 then Inr (True, s1)
           else bindE (evoluir_geracao ag1 tipo_cruzamento usar_mutacao_inteligente (fonte s))
                  (\<lambda>(ag2, g'). Inr (False, s1\<lparr>motor := ag2, fonte := g'\<rparr>))))"

text \<open>\<open>for geracao in range(max_geracoes)\<close>, on the number of rounds left.\<close>

fun laco_geracoes :: "nat \<Rightarrow> string \<Rightarrow> bool \<Rightarrow> execucao \<Rightarrow> erro + execucao" where
  "laco_geracoes 0 tipo intel s = Inr s"
| "laco_geracoes (Suc k) tipo intel s =
     (case geracao tipo intel s of
        Inl e \<Rightarrow> Inl e
      | Inr (parar, s') \<Rightarrow> if parar then Inr s' else laco_geracoes k tipo intel s')"

text \<open>\<open>executar\<close> returns the best solution (or \<open>None\<close>) and the two histories; the
  engine and the random source are returned with them. \<open>Inl\<close> is an exception that
  leaves \<open>executar\<close>.\<close>

definition executar ::
  "algoritmo \<Rightarrow> int \<Rightarrow> string \<Rightarrow> bool \<Rightarrow> rng
     \<Rightarrow> erro + ((cromossomo option \<times> real list \<times> real list) \<times> algoritmo \<times> rng)" where
  "executar ag max_geracoes tipo_cruzamento usar_mutacao_inteligente g =
     (if pessoas ag = [] then Inr ((None, [], []), ag, g)
      else case gerar_populacao_inicial ag g of
        Inl (ValueError, ag', g') \<Rightarrow> Inr ((None, [], []), ag', g')
      | Inl (e, ag', g') \<Rightarrow> Inl e
      | Inr (ag0, g0) \<Rightarrow>
          bindE (laco_geracoes (nat max_geracoes) tipo_cruzamento usar_mutacao_inteligente
                   \<lparr>motor = ag0, historico_fitness = [], historico_custo = [], fonte = g0\<rparr>)
            (\<lambda>s. let ag1 = avaliar_populacao (motor s) in
               bindE (max_por_fitness (populacao ag1)) (\<lambda>melhor_solucao.
                 Inr ((Some melhor_solucao, historico_fitness s, historico_custo s),
                      ag1, fonte s))))"

text \<open>The best fitness seen and the counter of generations without improvement, as the
  loop of \<open>executar\<close> keeps them, read off a fitness history.\<close>

definition registrar :: "real option \<times> int \<Rightarrow> real \<Rightarrow> real option \<times> int" where
  "registrar mc f =
     (if (case fst mc of None \<Rightarrow> True | Some m \<Rightarrow> m < f) then (Some f, 0)
      else (fst mc, snd mc + 1))"

definition registro :: "real list \<Rightarrow> real option \<times> int" where
  "registro h = foldl registrar (None, 0) h"

text \<open>What a mutation may do to a chromosome: the lengths stay, and at every position the
  gene is the old one or a flight on the menu of the person at that position, for the
  same leg.\<close>

definition mutacao_de :: "pessoa list \<Rightarrow> cromossomo \<Rightarrow> cromossomo \<Rightarrow> bool" where
  "mutacao_de ps c c' \<longleftrightarrow>
     length (voos_ida c') = length (voos_ida c) \<and>
     length (voos_volta c') = length (voos_volta c) \<and>
     (\<forall>i<length (voos_ida c).
        voos_ida c' ! i = voos_ida c ! i \<or> voos_ida c' ! i \<in> set (voos_ida_disponiveis (ps ! i))) \<and>
     (\<forall>i<length (voos_volta c).
        voos_volta c' ! i = voos_volta c ! i \<or>
        voos_volta c' ! i \<in> set (voos_volta_disponiveis (ps ! i)))"

text \<open>Two engines with the same parameters: they may differ in the population, the best
  fitness seen and the counter.\<close>

definition mesma_configuracao :: "algoritmo \<Rightarrow> algoritmo \<Rightarrow> bool" where
  "mesma_configuracao a b \<longleftrightarrow>
     pessoas b = pessoas a \<and> destino_encontro b = destino_encontro a \<and>
     tamanho_populacao b = tamanho_populacao a \<and> taxa_mutacao b = taxa_mutacao a \<and>
     taxa_elite b = taxa_elite a \<and>
     geracoes_sem_melhoria_max b = geracoes_sem_melhoria_max a \<and>
     peso_custo b = peso_custo a \<and> peso_gap_chegada b = peso_gap_chegada a \<and>
     peso_gap_saida b = peso_gap_saida a"

section \<open>Sample data\<close>

text \<open>Two persons in the format of the flight file: one from MAD with two flights per
  leg, one from LIS with one flight per leg. \<open>hora h\<close> is \<open>h\<close> o'clock of the base day.\<close>

definition hora :: "int \<Rightarrow> int" where
  "hora h = h * 3600000000"

definition ida_mad_cedo :: voo where
  "ida_mad_cedo = \<lparr>origem = ''MAD'', destino = ''FCO'', horario_saida = hora 8,
     horario_chegada = hora 10, preco = 100\<rparr>"

definition ida_mad_tarde :: voo where
  "ida_mad_tarde = \<lparr>origem = ''MAD'', destino = ''FCO'', horario_saida = hora 11,
     horario_chegada = hora 13, preco = 200\<rparr>"

definition volta_mad_tarde :: voo where
  "volta_mad_tarde = \<lparr>origem = ''FCO'', destino = ''MAD'', horario_saida = hora 18,
     horario_chegada = hora 20, preco = 100\<rparr>"

definition volta_mad_cedo :: voo where
  "volta_mad_cedo = \<lparr>origem = ''FCO'', destino = ''MAD'', horario_saida = hora 15,
     horario_chegada = hora 17, preco = 150\<rparr>"

definition ida_lis :: voo where
  "ida_lis = \<lparr>origem = ''LIS'', destino = ''FCO'', horario_saida = hora 7,
     horario_chegada = hora 10, preco = 120\<rparr>"

definition volta_lis :: voo where
  "volta_lis = \<lparr>origem = ''FCO'', destino = ''LIS'', horario_saida = hora 18,
     horario_chegada = hora 21, preco = 110\<rparr>"

definition pessoa_mad :: pessoa where
  "pessoa_mad = \<lparr>nome = ''Pessoa_MAD'', origem_cidade = ''MAD'',
     voos_ida_disponiveis = [ida_mad_cedo, ida_mad_tarde],
     voos_volta_disponiveis = [volta_mad_tarde, volta_mad_cedo]\<rparr>"

definition pessoa_lis :: pessoa where
  "pessoa_lis = \<lparr>nome = ''Pessoa_LIS'', origem_cidade = ''LIS'',
     voos_ida_disponiveis = [ida_lis], voos_volta_disponiveis = [volta_lis]\<rparr>"

text \<open>A person whose outbound menu is empty.\<close>

definition pessoa_sem_ida :: pessoa where
  "pessoa_sem_ida = \<lparr>nome = ''Pessoa_OPO'', origem_cidade = ''OPO'',
     voos_ida_disponiveis = [], voos_volta_disponiveis = [volta_lis]\<rparr>"

section \<open>Basic facts\<close>

lemma bindE_Inl [simp]: "bindE (Inl e) f = Inl e"
  by (simp add: bindE_def)

lemma bindE_Inr [simp]: "bindE (Inr x) f = f x"
  by (simp add: bindE_def)

lemma bindE_eq_Inr: "bindE m f = Inr y \<longleftrightarrow> (\<exists>x. m = Inr x \<and> f x = Inr y)"
  by (cases m) simp_all

lemma obter_dentro [simp]: "i < length xs \<Longrightarrow> obter xs i = Inr (xs ! i)"
  by (simp add: obter_def)

lemma proximo_sorteios_Cons [simp]: "proximo (sorteios (r # rs)) = (r, sorteios rs)"
  by (auto simp: proximo_def sorteios_def fun_eq_iff)

lemma proximo_sorteios_Nil [simp]: "proximo (sorteios []) = (0, sorteios [])"
  by (auto simp: proximo_def sorteios_def fun_eq_iff)

section \<open>Crossover keeps every gene on its menu\<close>

lemma custo_laco_eq:
  "\<forall>i\<in>set js. i < length (voos_ida p1) \<and> i < length (voos_ida p2) \<and>
      i < length (voos_volta p1) \<and> i < length (voos_volta p2) \<Longrightarrow>
   custo_laco p1 p2 js (a, b, c, d) = Inr
     (a @ map (\<lambda>i. if preco (voos_ida p1 ! i) \<le> preco (voos_ida p2 ! i) then voos_ida p1 ! i else voos_ida p2 ! i) js,
      b @ map (\<lambda>i. if preco (voos_volta p1 ! i) \<le> preco (voos_volta p2 ! i) then voos_volta p1 ! i else voos_volta p2 ! i) js,
      c @ map (\<lambda>i. if preco (voos_ida p1 ! i) \<le> preco (voos_ida p2 ! i) then voos_ida p2 ! i else voos_ida p1 ! i) js,
      d @ map (\<lambda>i. if preco (voos_volta p1 ! i) \<le> preco (voos_volta p2 ! i) then voos_volta p2 ! i else voos_volta p1 ! i) js)"
proof (induction js arbitrary: a b c d)
  case Nil
  then show ?case by simp
next
  case (Cons j js)
  then show ?case by (simp add: Let_def)
qed

lemma uniforme_laco_res:
  "uniforme_laco p1 p2 js (a, b, c, d) g = Inr ((a', b', c', d'), g') \<Longrightarrow>
   \<exists>ys zs us vs. a' = a @ ys \<and> b' = b @ zs \<and> c' = c @ us \<and> d' = d @ vs \<and>
     length ys = length js \<and> length zs = length js \<and> length us = length js \<and> length vs = length js \<and>
     (\<forall>m<length js. (ys ! m = voos_ida p1 ! (js ! m) \<or> ys ! m = voos_ida p2 ! (js ! m)) \<and>
        (zs ! m = voos_volta p1 ! (js ! m) \<or> zs ! m = voos_volta p2 ! (js ! m)) \<and>
        (us ! m = voos_ida p1 ! (js ! m) \<or> us ! m = voos_ida p2 ! (js ! m)) \<and>
        (vs ! m = voos_volta p1 ! (js ! m) \<or> vs ! m = voos_volta p2 ! (js ! m)))"
proof (induction js arbitrary: a b c d g)
  case Nil
  then show ?case by simp
next
  case (Cons j js)
  obtain u g1 where u: "random_random g = (u, g1)" by (cases "random_random g")
  from Cons.prems u obtain i1 v1 i2 v2 where
    o: "obter (voos_ida p1) j = Inr i1" "obter (voos_volta p1) j = Inr v1"
       "obter (voos_ida p2) j = Inr i2" "obter (voos_volta p2) j = Inr v2"
    and r: "(if u < 0.5
         then uniforme_laco p1 p2 js (a @ [i1], b @ [v1], c @ [i2], d @ [v2]) g1
         else uniforme_laco p1 p2 js (a @ [i2], b @ [v2], c @ [i1], d @ [v1]) g1) = Inr ((a', b', c', d'), g')"
    by (auto simp: bindE_eq_Inr)
  from o have e: "i1 = voos_ida p1 ! j" "v1 = voos_volta p1 ! j" "i2 = voos_ida p2 ! j" "v2 = voos_volta p2 ! j"
    by (auto simp: obter_def split: if_splits)
  show ?case
  proof (cases "u < 0.5")
    case True
    with r have "uniforme_laco p1 p2 js (a @ [i1], b @ [v1], c @ [i2], d @ [v2]) g1 = Inr ((a', b', c', d'), g')" by simp
    from Cons.IH[OF this] obtain ys zs us vs where
      h: "a' = (a @ [i1]) @ ys" "b' = (b @ [v1]) @ zs" "c' = (c @ [i2]) @ us" "d' = (d @ [v2]) @ vs"
        "length ys = length js" "length zs = length js" "length us = length js" "length vs = length js"
        "\<forall>m<length js. (ys ! m = voos_ida p1 ! (js ! m) \<or> ys ! m = voos_ida p2 ! (js ! m)) \<and>
        (zs ! m = voos_volta p1 ! (js ! m) \<or> zs ! m = voos_volta p2 ! (js ! m)) \<and>
        (us ! m = voos_ida p1 ! (js ! m) \<or> us ! m = voos_ida p2 ! (js ! m)) \<and>
        (vs ! m = voos_volta p1 ! (js ! m) \<or> vs ! m = voos_volta p2 ! (js ! m))" by blast
    show ?thesis
      apply (rule exI[of _ "i1 # ys"], rule exI[of _ "v1 # zs"], rule exI[of _ "i2 # us"], rule exI[of _ "v2 # vs"])
      using h e by (auto simp: nth_Cons split: nat.splits)
  next
    case False
    with r have "uniforme_laco p1 p2 js (a @ [i2], b @ [v2], c @ [i1], d @ [v1]) g1 = Inr ((a', b', c', d'), g')" by simp
    from Cons.IH[OF this] obtain ys zs us vs where
      h: "a' = (a @ [i2]) @ ys" "b' = (b @ [v2]) @ zs" "c' = (c @ [i1]) @ us" "d' = (d @ [v1]) @ vs"
        "length ys = length js" "length zs = length js" "length us = length js" "length vs = length js"
        "\<forall>m<length js. (ys ! m = voos_ida p1 ! (js ! m) \<or> ys ! m = voos_ida p2 ! (js ! m)) \<and>
        (zs ! m = voos_volta p1 ! (js ! m) \<or> zs ! m = voos_volta p2 ! (js ! m)) \<and>
        (us ! m = voos_ida p1 ! (js ! m) \<or> us ! m = voos_ida p2 ! (js ! m)) \<and>
        (vs ! m = voos_volta p1 ! (js ! m) \<or> vs ! m = voos_volta p2 ! (js ! m))" by blast
    show ?thesis
      apply (rule exI[of _ "i2 # ys"], rule exI[of _ "v2 # zs"], rule exI[of _ "i1 # us"], rule exI[of _ "v1 # vs"])
      using h e by (auto simp: nth_Cons split: nat.splits)
  qed
qed

lemma uniforme_laco_total:
  "\<forall>i\<in>set js. i < length (voos_ida p1) \<and> i < length (voos_ida p2) \<and>
      i < length (voos_volta p1) \<and> i < length (voos_volta p2) \<Longrightarrow>
   \<exists>r. uniforme_laco p1 p2 js acc g = Inr r"
proof (induction js arbitrary: acc g)
  case Nil
  obtain a b c d where "acc = (a, b, c, d)" by (metis prod_cases4)
  then show ?case by simp
next
  case (Cons j js)
  obtain a b c d where acc: "acc = (a, b, c, d)" by (metis prod_cases4)
  obtain u g1 where u: "random_random g = (u, g1)" by (cases "random_random g")
  from Cons show ?case unfolding acc by (simp add: u)
qed

lemma horario_laco_res:
  "horario_laco p1 p2 js (b, d) g = Inr ((b', d'), g') \<Longrightarrow>
   \<exists>zs vs. b' = b @ zs \<and> d' = d @ vs \<and> length zs = length js \<and> length vs = length js \<and>
     (\<forall>m<length js.
        (zs ! m = voos_volta p1 ! (js ! m) \<or> zs ! m = voos_volta p2 ! (js ! m)) \<and>
        (vs ! m = voos_volta p1 ! (js ! m) \<or> vs ! m = voos_volta p2 ! (js ! m)))"
proof (induction js arbitrary: b d g)
  case Nil
  then show ?case by simp
next
  case (Cons j js)
  obtain u g1 where u: "random_random g = (u, g1)" by (cases "random_random g")
  from Cons.prems u obtain v1 v2 where
    o: "obter (voos_volta p1) j = Inr v1" "obter (voos_volta p2) j = Inr v2"
    and r: "(if u < 0.5 then horario_laco p1 p2 js (b @ [v1], d @ [v2]) g1
         else horario_laco p1 p2 js (b @ [v2], d @ [v1]) g1) = Inr ((b', d'), g')"
    by (auto simp: bindE_eq_Inr)
  from o have e: "v1 = voos_volta p1 ! j" "v2 = voos_volta p2 ! j"
    by (auto simp: obter_def split: if_splits)
  show ?case
  proof (cases "u < 0.5")
    case True
    with r have "horario_laco p1 p2 js (b @ [v1], d @ [v2]) g1 = Inr ((b', d'), g')" by simp
    from Cons.IH[OF this] obtain zs vs where
      h: "b' = (b @ [v1]) @ zs" "d' = (d @ [v2]) @ vs" "length zs = length js" "length vs = length js"
        "\<forall>m<length js.
        (zs ! m = voos_volta p1 ! (js ! m) \<or> zs ! m = voos_volta p2 ! (js ! m)) \<and>
        (vs ! m = voos_volta p1 ! (js ! m) \<or> vs ! m = voos_volta p2 ! (js ! m))" by blast
    show ?thesis
      apply (rule exI[of _ "v1 # zs"], rule exI[of _ "v2 # vs"])
      using h e by (auto simp: nth_Cons split: nat.splits)
  next
    case False
    with r have "horario_laco p1 p2 js (b @ [v2], d @ [v1]) g1 = Inr ((b', d'), g')" by simp
    from Cons.IH[OF this] obtain zs vs where
      h: "b' = (b @ [v2]) @ zs" "d' = (d @ [v1]) @ vs" "length zs = length js" "length vs = length js"
        "\<forall>m<length js.
        (zs ! m = voos_volta p1 ! (js ! m) \<or> zs ! m = voos_volta p2 ! (js ! m)) \<and>
        (vs ! m = voos_volta p1 ! (js ! m) \<or> vs ! m = voos_volta p2 ! (js ! m))" by blast
    show ?thesis
      apply (rule exI[of _ "v2 # zs"], rule exI[of _ "v1 # vs"])
      using h e by (auto simp: nth_Cons split: nat.splits)
  qed
qed

lemma horario_laco_total:
  "\<forall>i\<in>set js. i < length (voos_volta p1) \<and> i < length (voos_volta p2) \<Longrightarrow>
   \<exists>r. horario_laco p1 p2 js acc g = Inr r"
proof (induction js arbitrary: acc g)
  case Nil
  then show ?case by simp
next
  case (Cons j js)
  obtain b d where acc: "acc = (b, d)" by (cases acc)
  obtain u g1 where u: "random_random g = (u, g1)" by (cases "random_random g")
  from Cons show ?case unfolding acc by (simp add: u)
qed

text \<open>Children whose genes come, position by position, from one of the parents.\<close>

lemma genes_mistura:
  assumes "genes_do_cardapio ps n p1" "genes_do_cardapio ps n p2"
    and "length ida = n" "length volta = n"
    and "\<forall>i<n. ida ! i = voos_ida p1 ! i \<or> ida ! i = voos_ida p2 ! i"
    and "\<forall>i<n. volta ! i = voos_volta p1 ! i \<or> volta ! i = voos_volta p2 ! i"
  shows "genes_do_cardapio ps n (Cromossomo ida volta)"
  using assms unfolding genes_do_cardapio_def Cromossomo_def by (simp; metis)

lemma corte_length: "length a = n \<Longrightarrow> length b = n \<Longrightarrow> length (take p a @ drop p b) = n"
  by auto

lemma corte_nth:
  "length a = n \<Longrightarrow> length b = n \<Longrightarrow> i < n \<Longrightarrow>
   (take p a @ drop p b) ! i = a ! i \<or> (take p a @ drop p b) ! i = b ! i"
  by (auto simp: nth_append min_def)

lemma dois_cortes_length:
  "length a = n \<Longrightarrow> length b = n \<Longrightarrow> p \<le> q \<Longrightarrow>
   length (take p a @ fatia b p q @ drop q a) = n"
  by (auto simp: fatia_def min_def)

lemma dois_cortes_nth:
  "length a = n \<Longrightarrow> length b = n \<Longrightarrow> p \<le> q \<Longrightarrow> i < n \<Longrightarrow>
   (take p a @ fatia b p q @ drop q a) ! i = a ! i \<or>
   (take p a @ fatia b p q @ drop q a) ! i = b ! i"
  by (auto simp: fatia_def nth_append min_def)

lemma ponto_unico_genes:
  assumes "genes_do_cardapio ps n p1" "genes_do_cardapio ps n p2"
    and "cruzamento_ponto_unico p1 p2 g = Inr ((f1, f2), g')"
  shows "genes_do_cardapio ps n f1 \<and> genes_do_cardapio ps n f2"
proof (cases "n = 0")
  case True
  with assms show ?thesis
    by (auto simp: cruzamento_ponto_unico_def genes_do_cardapio_def Cromossomo_def)
next
  case False
  have l: "length (voos_ida p1) = n" "length (voos_ida p2) = n"
    "length (voos_volta p1) = n" "length (voos_volta p2) = n"
    using assms(1,2) by (auto simp: genes_do_cardapio_def)
  from assms(3) False l obtain p where
    f: "f1 = Cromossomo (take p (voos_ida p1) @ drop p (voos_ida p2))
                        (take p (voos_volta p1) @ drop p (voos_volta p2))"
       "f2 = Cromossomo (take p (voos_ida p2) @ drop p (voos_ida p1))
                        (take p (voos_volta p2) @ drop p (voos_volta p1))"
    by (auto simp: cruzamento_ponto_unico_def Let_def bindE_eq_Inr)
  have "genes_do_cardapio ps n f1" unfolding f
  proof (rule genes_mistura[OF assms(1,2)])
    show "\<forall>i<n. (take p (voos_ida p1) @ drop p (voos_ida p2)) ! i = voos_ida p1 ! i \<or>
            (take p (voos_ida p1) @ drop p (voos_ida p2)) ! i = voos_ida p2 ! i"
      using corte_nth[OF l(1) l(2)] by blast
    show "\<forall>i<n. (take p (voos_volta p1) @ drop p (voos_volta p2)) ! i = voos_volta p1 ! i \<or>
            (take p (voos_volta p1) @ drop p (voos_volta p2)) ! i = voos_volta p2 ! i"
      using corte_nth[OF l(3) l(4)] by blast
  qed (simp_all add: corte_length l)
  moreover have "genes_do_cardapio ps n f2" unfolding f
  proof (rule genes_mistura[OF assms(1,2)])
    show "\<forall>i<n. (take p (voos_ida p2) @ drop p (voos_ida p1)) ! i = voos_ida p1 ! i \<or>
            (take p (voos_ida p2) @ drop p (voos_ida p1)) ! i = voos_ida p2 ! i"
      using corte_nth[OF l(2) l(1)] by blast
    show "\<forall>i<n. (take p (voos_volta p2) @ drop p (voos_volta p1)) ! i = voos_volta p1 ! i \<or>
            (take p (voos_volta p2) @ drop p (voos_volta p1)) ! i = voos_volta p2 ! i"
      using corte_nth[OF l(4) l(3)] by blast
  qed (simp_all add: corte_length l)
  ultimately show ?thesis ..
qed


lemma dois_pontos_genes:
  assumes "genes_do_cardapio ps n p1" "genes_do_cardapio ps n p2"
    and "cruzamento_dois_pontos p1 p2 g = Inr ((f1, f2), g')"
  shows "genes_do_cardapio ps n f1 \<and> genes_do_cardapio ps n f2"
proof (cases "n < 3")
  case True
  have "length (voos_ida p1) = n" using assms(1) by (simp add: genes_do_cardapio_def)
  with True assms(3) have "cruzamento_ponto_unico p1 p2 g = Inr ((f1, f2), g')"
    by (simp add: cruzamento_dois_pontos_def)
  from ponto_unico_genes[OF assms(1,2) this] show ?thesis .
next
  case False
  have l: "length (voos_ida p1) = n" "length (voos_ida p2) = n"
    "length (voos_volta p1) = n" "length (voos_volta p2) = n"
    using assms(1,2) by (auto simp: genes_do_cardapio_def)
  from assms(3) False l obtain pts where
    f: "f1 = Cromossomo
          (take (min (pts ! 0) (pts ! 1)) (voos_ida p1)
             @ fatia (voos_ida p2) (min (pts ! 0) (pts ! 1)) (max (pts ! 0) (pts ! 1))
             @ drop (max (pts ! 0) (pts ! 1)) (voos_ida p1))
          (take (min (pts ! 0) (pts ! 1)) (voos_volta p1)
             @ fatia (voos_volta p2) (min (pts ! 0) (pts ! 1)) (max (pts ! 0) (pts ! 1))
             @ drop (max (pts ! 0) (pts ! 1)) (voos_volta p1))"
       "f2 = Cromossomo
          (take (min (pts ! 0) (pts ! 1)) (voos_ida p2)
             @ fatia (voos_ida p1) (min (pts ! 0) (pts ! 1)) (max (pts ! 0) (pts ! 1))
             @ drop (max (pts ! 0) (pts ! 1)) (voos_ida p2))
          (take (min (pts ! 0) (pts ! 1)) (voos_volta p2)
             @ fatia (voos_volta p1) (min (pts ! 0) (pts ! 1)) (max (pts ! 0) (pts ! 1))
             @ drop (max (pts ! 0) (pts ! 1)) (voos_volta p2))"
    by (auto simp: cruzamento_dois_pontos_def Let_def bindE_eq_Inr)
  define p where "p = min (pts ! 0) (pts ! 1)"
  define q where "q = max (pts ! 0) (pts ! 1)"
  have pq: "p \<le> q" by (simp add: p_def q_def)
  note f' = f[folded p_def q_def]
  have "genes_do_cardapio ps n f1" unfolding f'
  proof (rule genes_mistura[OF assms(1,2)])
    show "\<forall>i<n. (take p (voos_ida p1) @ fatia (voos_ida p2) p q @ drop q (voos_ida p1)) ! i
              = voos_ida p1 ! i \<or>
            (take p (voos_ida p1) @ fatia (voos_ida p2) p q @ drop q (voos_ida p1)) ! i
              = voos_ida p2 ! i"
      using dois_cortes_nth[OF l(1) l(2) pq] by blast
    show "\<forall>i<n. (take p (voos_volta p1) @ fatia (voos_volta p2) p q @ drop q (voos_volta p1)) ! i
              = voos_volta p1 ! i \<or>
            (take p (voos_volta p1) @ fatia (voos_volta p2) p q @ drop q (voos_volta p1)) ! i
              = voos_volta p2 ! i"
      using dois_cortes_nth[OF l(3) l(4) pq] by blast
  qed (use pq l in \<open>auto simp: fatia_def min_def\<close>)
  moreover have "genes_do_cardapio ps n f2" unfolding f'
  proof (rule genes_mistura[OF assms(1,2)])
    show "\<forall>i<n. (take p (voos_ida p2) @ fatia (voos_ida p1) p q @ drop q (voos_ida p2)) ! i
              = voos_ida p1 ! i \<or>
            (take p (voos_ida p2) @ fatia (voos_ida p1) p q @ drop q (voos_ida p2)) ! i
              = voos_ida p2 ! i"
      using dois_cortes_nth[OF l(2) l(1) pq] by blast
    show "\<forall>i<n. (take p (voos_volta p2) @ fatia (voos_volta p1) p q @ drop q (voos_volta p2)) ! i
              = voos_volta p1 ! i \<or>
            (take p (voos_volta p2) @ fatia (voos_volta p1) p q @ drop q (voos_volta p2)) ! i
              = voos_volta p2 ! i"
      using dois_cortes_nth[OF l(4) l(3) pq] by blast
  qed (use pq l in \<open>auto simp: fatia_def min_def\<close>)
  ultimately show ?thesis ..
qed

lemma uniforme_genes:
  assumes "genes_do_cardapio ps n p1" "genes_do_cardapio ps n p2"
    and "cruzamento_uniforme p1 p2 g = Inr ((f1, f2), g')"
  shows "genes_do_cardapio ps n f1 \<and> genes_do_cardapio ps n f2"
proof (cases "n = 0")
  case True
  with assms show ?thesis
    by (auto simp: cruzamento_uniforme_def genes_do_cardapio_def Cromossomo_def)
next
  case False
  have l: "length (voos_ida p1) = n"
    using assms(1) by (auto simp: genes_do_cardapio_def)
  from assms(3) False l obtain a b c d where
    r: "uniforme_laco p1 p2 [0..<n] ([], [], [], []) g = Inr ((a, b, c, d), g')"
    and f: "f1 = Cromossomo a b" "f2 = Cromossomo c d"
    by (auto simp: cruzamento_uniforme_def Let_def bindE_eq_Inr)
  from uniforme_laco_res[OF r] have
    h: "length a = n" "length b = n" "length c = n" "length d = n"
       "\<forall>m<n. (a ! m = voos_ida p1 ! m \<or> a ! m = voos_ida p2 ! m) \<and>
          (b ! m = voos_volta p1 ! m \<or> b ! m = voos_volta p2 ! m) \<and>
          (c ! m = voos_ida p1 ! m \<or> c ! m = voos_ida p2 ! m) \<and>
          (d ! m = voos_volta p1 ! m \<or> d ! m = voos_volta p2 ! m)"
    by auto
  have "genes_do_cardapio ps n f1" unfolding f
    by (rule genes_mistura[OF assms(1,2)]) (use h in simp_all)
  moreover have "genes_do_cardapio ps n f2" unfolding f
    by (rule genes_mistura[OF assms(1,2)]) (use h in simp_all)
  ultimately show ?thesis ..
qed

lemma custo_resultado:
  assumes "length (voos_ida p1) = n" "length (voos_ida p2) = n"
    "length (voos_volta p1) = n" "length (voos_volta p2) = n" "n \<noteq> 0"
  shows "cruzamento_baseado_custo p1 p2 g = Inr
     ((Cromossomo
         (map (\<lambda>i. if preco (voos_ida p1 ! i) \<le> preco (voos_ida p2 ! i)
                    then voos_ida p1 ! i else voos_ida p2 ! i) [0..<n])
         (map (\<lambda>i. if preco (voos_volta p1 ! i) \<le> preco (voos_volta p2 ! i)
                    then voos_volta p1 ! i else voos_volta p2 ! i) [0..<n]),
       Cromossomo
         (map (\<lambda>i. if preco (voos_ida p1 ! i) \<le> preco (voos_ida p2 ! i)
                    then voos_ida p2 ! i else voos_ida p1 ! i) [0..<n])
         (map (\<lambda>i. if preco (voos_volta p1 ! i) \<le> preco (voos_volta p2 ! i)
                    then voos_volta p2 ! i else voos_volta p1 ! i) [0..<n])), g)"
proof -
  have "\<forall>i\<in>set [0..<n]. i < length (voos_ida p1) \<and> i < length (voos_ida p2) \<and>
      i < length (voos_volta p1) \<and> i < length (voos_volta p2)"
    using assms by simp
  from custo_laco_eq[OF this, of "[]" "[]" "[]" "[]"] assms show ?thesis
    by (simp add: cruzamento_baseado_custo_def)
qed

lemma custo_genes:
  assumes "genes_do_cardapio ps n p1" "genes_do_cardapio ps n p2"
    and "cruzamento_baseado_custo p1 p2 g = Inr ((f1, f2), g')"
  shows "genes_do_cardapio ps n f1 \<and> genes_do_cardapio ps n f2"
proof (cases "n = 0")
  case True
  with assms show ?thesis
    by (auto simp: cruzamento_baseado_custo_def genes_do_cardapio_def Cromossomo_def)
next
  case False
  have l: "length (voos_ida p1) = n" "length (voos_ida p2) = n"
    "length (voos_volta p1) = n" "length (voos_volta p2) = n"
    using assms(1,2) by (auto simp: genes_do_cardapio_def)
  from assms(3) have f: "f1 = Cromossomo
         (map (\<lambda>i. if preco (voos_ida p1 ! i) \<le> preco (voos_ida p2 ! i)
                    then voos_ida p1 ! i else voos_ida p2 ! i) [0..<n])
         (map (\<lambda>i. if preco (voos_volta p1 ! i) \<le> preco (voos_volta p2 ! i)
                    then voos_volta p1 ! i else voos_volta p2 ! i) [0..<n])"
     "f2 = Cromossomo
         (map (\<lambda>i. if preco (voos_ida p1 ! i) \<le> preco (voos_ida p2 ! i)
                    then voos_ida p2 ! i else voos_ida p1 ! i) [0..<n])
         (map (\<lambda>i. if preco (voos_volta p1 ! i) \<le> preco (voos_volta p2 ! i)
                    then voos_volta p2 ! i else voos_volta p1 ! i) [0..<n])"
    unfolding custo_resultado[OF l False] by simp_all
  have "genes_do_cardapio ps n f1" unfolding f
    by (rule genes_mistura[OF assms(1,2)]) simp_all
  moreover have "genes_do_cardapio ps n f2" unfolding f
    by (rule genes_mistura[OF assms(1,2)]) simp_all
  ultimately show ?thesis ..
qed

lemma horario_genes:
  assumes "genes_do_cardapio ps n p1" "genes_do_cardapio ps n p2"
    and "cruzamento_baseado_horario p1 p2 g = Inr ((f1, f2), g')"
  shows "genes_do_cardapio ps n f1 \<and> genes_do_cardapio ps n f2"
proof (cases "n = 0")
  case True
  with assms show ?thesis
    by (auto simp: cruzamento_baseado_horario_def genes_do_cardapio_def Cromossomo_def)
next
  case False
  have l: "length (voos_ida p1) = n" "length (voos_ida p2) = n"
    using assms(1,2) by (auto simp: genes_do_cardapio_def)
  with False have ne: "voos_ida p1 \<noteq> []" "voos_ida p2 \<noteq> []" by auto
  from assms(3) False l ne obtain a b c d where
    r: "horario_laco p1 p2 [0..<n] ([], []) g = Inr ((b, d), g')"
    and f: "f1 = Cromossomo a b" "f2 = Cromossomo c d"
    and ac: "(a = voos_ida p1 \<and> c = voos_ida p2) \<or> (a = voos_ida p2 \<and> c = voos_ida p1)"
    by (auto simp: cruzamento_baseado_horario_def Let_def bindE_eq_Inr split: if_splits)
  from horario_laco_res[OF r] have
    h: "length b = n" "length d = n"
       "\<forall>m<n. (b ! m = voos_volta p1 ! m \<or> b ! m = voos_volta p2 ! m) \<and>
          (d ! m = voos_volta p1 ! m \<or> d ! m = voos_volta p2 ! m)"
    by auto
  have "genes_do_cardapio ps n f1" unfolding f
    by (rule genes_mistura[OF assms(1,2)]) (use h ac l in auto)
  moreover have "genes_do_cardapio ps n f2" unfolding f
    by (rule genes_mistura[OF assms(1,2)]) (use h ac l in auto)
  ultimately show ?thesis ..
qed


lemma random_sample_total: "k \<le> length xs \<Longrightarrow> \<exists>r. random_sample xs k g = Inr r"
proof (induction k arbitrary: xs g)
  case 0
  then show ?case by simp
next
  case (Suc k)
  obtain r g1 where p: "proximo g = (r, g1)" by (cases "proximo g")
  from Suc.prems have ne: "xs \<noteq> []" by auto
  then have lt: "r mod length xs < length xs" by simp
  then have "k \<le> length (take (r mod length xs) xs @ drop (Suc (r mod length xs)) xs)"
    using Suc.prems by simp
  from Suc.IH[OF this, of g1] obtain ys g2 where
    "random_sample (take (r mod length xs) xs @ drop (Suc (r mod length xs)) xs) k g1 = Inr (ys, g2)"
    by auto
  with ne p show ?case by (simp add: Let_def)
qed

lemma ponto_unico_total:
  "length (voos_ida p1) \<noteq> 1 \<Longrightarrow> \<exists>r. cruzamento_ponto_unico p1 p2 g = Inr r"
proof (cases "length (voos_ida p1) = 0")
  case True
  then show ?thesis by (simp add: cruzamento_ponto_unico_def)
next
  case False
  assume "length (voos_ida p1) \<noteq> 1"
  with False have "\<not> int (length (voos_ida p1)) - 1 < 1" by linarith
  with False show ?thesis
    by (cases "proximo g") (simp add: cruzamento_ponto_unico_def random_randint_def Let_def)
qed

lemma dois_pontos_total:
  "length (voos_ida p1) \<noteq> 1 \<Longrightarrow> \<exists>r. cruzamento_dois_pontos p1 p2 g = Inr r"
proof (cases "length (voos_ida p1) < 3")
  case True
  assume "length (voos_ida p1) \<noteq> 1"
  from ponto_unico_total[OF this] True show ?thesis
    by (simp add: cruzamento_dois_pontos_def)
next
  case False
  then have "2 \<le> length [1..<length (voos_ida p1)]" by simp
  from random_sample_total[OF this, of g] obtain pts g1 where
    "random_sample [1..<length (voos_ida p1)] 2 g = Inr (pts, g1)" by auto
  with False show ?thesis by (simp add: cruzamento_dois_pontos_def Let_def)
qed

lemma uniforme_total:
  assumes "length (voos_ida p1) = n" "length (voos_ida p2) = n"
    "length (voos_volta p1) = n" "length (voos_volta p2) = n"
  shows "\<exists>r. cruzamento_uniforme p1 p2 g = Inr r"
proof -
  have "\<forall>i\<in>set [0..<n]. i < length (voos_ida p1) \<and> i < length (voos_ida p2) \<and>
      i < length (voos_volta p1) \<and> i < length (voos_volta p2)"
    using assms by simp
  from uniforme_laco_total[OF this, of "([], [], [], [])" g] obtain a b c d g1 where
    "uniforme_laco p1 p2 [0..<n] ([], [], [], []) g = Inr ((a, b, c, d), g1)"
    by (metis prod_cases4 surj_pair)
  with assms(1) show ?thesis by (simp add: cruzamento_uniforme_def)
qed

lemma horario_total:
  assumes "length (voos_ida p1) = n" "length (voos_ida p2) = n"
    "length (voos_volta p1) = n" "length (voos_volta p2) = n"
  shows "\<exists>r. cruzamento_baseado_horario p1 p2 g = Inr r"
proof (cases "n = 0")
  case True
  with assms show ?thesis by (simp add: cruzamento_baseado_horario_def)
next
  case False
  have "\<forall>i\<in>set [0..<n]. i < length (voos_volta p1) \<and> i < length (voos_volta p2)"
    using assms by simp
  from horario_laco_total[OF this, of "([], [])" g] obtain b d g1 where
    "horario_laco p1 p2 [0..<n] ([], []) g = Inr ((b, d), g1)"
    by (metis surj_pair)
  with assms(1,2) False show ?thesis
    by (auto simp: cruzamento_baseado_horario_def Let_def)
qed

text \<open>
  Claim C1. Two parents with \<open>n\<close> genes per leg, the gene at position \<open>i\<close> taken from
  the menu of person \<open>i\<close> for that leg: every pair of children that one of the five
  crossovers returns has \<open>n\<close> genes per leg again, each gene from the menu of the person
  at its position and of its leg. For \<open>n \<noteq> 1\<close> each of the five does return a pair.
\<close>

theorem cruzamentos_preservam_cardapio:
  assumes "genes_do_cardapio ps n pai1" and "genes_do_cardapio ps n pai2"
    and "cruzamento \<in> {cruzamento_ponto_unico, cruzamento_dois_pontos, cruzamento_uniforme,
           cruzamento_baseado_custo, cruzamento_baseado_horario}"
  shows "(cruzamento pai1 pai2 g = Inr ((filho1, filho2), g') \<longrightarrow>
            genes_do_cardapio ps n filho1 \<and> genes_do_cardapio ps n filho2) \<and>
         (n \<noteq> 1 \<longrightarrow> (\<exists>r. cruzamento pai1 pai2 g = Inr r))"
proof -
  have l: "length (voos_ida pai1) = n" "length (voos_ida pai2) = n"
    "length (voos_volta pai1) = n" "length (voos_volta pai2) = n"
    using assms(1,2) by (auto simp: genes_do_cardapio_def)
  have custo_total: "\<exists>r. cruzamento_baseado_custo pai1 pai2 g = Inr r"
  proof (cases "n = 0")
    case True
    with l show ?thesis by (simp add: cruzamento_baseado_custo_def)
  next
    case False
    from custo_resultado[OF l False] show ?thesis by simp
  qed
  from assms(3) consider
      "cruzamento = cruzamento_ponto_unico" | "cruzamento = cruzamento_dois_pontos"
    | "cruzamento = cruzamento_uniforme" | "cruzamento = cruzamento_baseado_custo"
    | "cruzamento = cruzamento_baseado_horario" by blast
  then show ?thesis
  proof cases
    case 1
    then show ?thesis
      using ponto_unico_genes[OF assms(1,2)] ponto_unico_total[of pai1 pai2 g] l by auto
  next
    case 2
    then show ?thesis
      using dois_pontos_genes[OF assms(1,2)] dois_pontos_total[of pai1 pai2 g] l by auto
  next
    case 3
    then show ?thesis
      using uniforme_genes[OF assms(1,2)] uniforme_total[OF l, of g] by auto
  next
    case 4
    then show ?thesis
      using custo_genes[OF assms(1,2)] custo_total by auto
  next
    case 5
    then show ?thesis
      using horario_genes[OF assms(1,2)] horario_total[OF l, of g] by auto
  qed
qed

lemmas exemplos = hora_def ida_mad_cedo_def ida_mad_tarde_def volta_mad_tarde_def
  volta_mad_cedo_def ida_lis_def volta_lis_def pessoa_mad_def pessoa_lis_def pessoa_sem_ida_def

text \<open>The single-point crossover of two chromosomes of the two sample persons.\<close>

theorem cruzamentos_preservam_cardapio_witness:
  "genes_do_cardapio [pessoa_mad, pessoa_lis] 2
     (Cromossomo [ida_mad_cedo, ida_lis] [volta_mad_tarde, volta_lis]) \<and>
   genes_do_cardapio [pessoa_mad, pessoa_lis] 2
     (Cromossomo [ida_mad_tarde, ida_lis] [volta_mad_cedo, volta_lis]) \<and>
   cruzamento_ponto_unico
     (Cromossomo [ida_mad_cedo, ida_lis] [volta_mad_tarde, volta_lis])
     (Cromossomo [ida_mad_tarde, ida_lis] [volta_mad_cedo, volta_lis]) (sorteios [])
   = Inr ((Cromossomo [ida_mad_cedo, ida_lis] [volta_mad_tarde, volta_lis],
           Cromossomo [ida_mad_tarde, ida_lis] [volta_mad_cedo, volta_lis]), sorteios []) \<and>
   genes_do_cardapio [pessoa_mad, pessoa_lis] 2
     (Cromossomo [ida_mad_cedo, ida_lis] [volta_mad_tarde, volta_lis]) \<and>
   genes_do_cardapio [pessoa_mad, pessoa_lis] 2
     (Cromossomo [ida_mad_tarde, ida_lis] [volta_mad_cedo, volta_lis])"
proof -
  have a: "genes_do_cardapio [pessoa_mad, pessoa_lis] 2
     (Cromossomo [ida_mad_cedo, ida_lis] [volta_mad_tarde, volta_lis])"
    by (simp add: genes_do_cardapio_def Cromossomo_def pessoa_mad_def pessoa_lis_def
        less_Suc_eq numeral_2_eq_2)
  have b: "genes_do_cardapio [pessoa_mad, pessoa_lis] 2
     (Cromossomo [ida_mad_tarde, ida_lis] [volta_mad_cedo, volta_lis])"
    by (simp add: genes_do_cardapio_def Cromossomo_def pessoa_mad_def pessoa_lis_def
        less_Suc_eq numeral_2_eq_2)
  have c: "cruzamento_ponto_unico
     (Cromossomo [ida_mad_cedo, ida_lis] [volta_mad_tarde, volta_lis])
     (Cromossomo [ida_mad_tarde, ida_lis] [volta_mad_cedo, volta_lis]) (sorteios [])
   = Inr ((Cromossomo [ida_mad_cedo, ida_lis] [volta_mad_tarde, volta_lis],
           Cromossomo [ida_mad_tarde, ida_lis] [volta_mad_cedo, volta_lis]), sorteios [])"
    by (simp add: cruzamento_ponto_unico_def Cromossomo_def random_randint_def)
  have d: "cruzamento_ponto_unico \<in> {cruzamento_ponto_unico, cruzamento_dois_pontos,
      cruzamento_uniforme, cruzamento_baseado_custo, cruzamento_baseado_horario}" by simp
  from cruzamentos_preservam_cardapio[OF a b d, of "sorteios []"] a b c show ?thesis
    by simp
qed

text \<open>
  Claim C4. With no gene the single-point crossover returns two empty chromosomes, but
  with one gene per parent \<open>random.randint(1, 0)\<close> has an empty range and the crossover
  raises \<open>ValueError\<close>, whatever the random source.
\<close>

theorem ponto_unico_um_gene:
  "cruzamento_ponto_unico (Cromossomo [ida_lis] [volta_lis]) (Cromossomo [ida_lis] [volta_lis]) g
     = Inl ValueError"
  by (simp add: cruzamento_ponto_unico_def Cromossomo_def random_randint_def)

text \<open>
  Claim C8. For parents with \<open>n \<ge> 1\<close> genes in each of their four lists, the cost-based
  crossover returns two children with \<open>n\<close> genes per leg; at every position and for both
  legs the flight of the first child costs no more than that of the second, and the two
  children carry exactly the two flights of the parents at that position and leg.
\<close>

theorem custo_filho1_mais_barato:
  assumes "length (voos_ida pai1) = n" and "length (voos_ida pai2) = n"
    and "length (voos_volta pai1) = n" and "length (voos_volta pai2) = n" and "1 \<le> n"
  shows "\<exists>filho1 filho2. cruzamento_baseado_custo pai1 pai2 g = Inr ((filho1, filho2), g) \<and>
     length (voos_ida filho1) = n \<and> length (voos_volta filho1) = n \<and>
     length (voos_ida filho2) = n \<and> length (voos_volta filho2) = n \<and>
     (\<forall>i<n. preco (voos_ida filho1 ! i) \<le> preco (voos_ida filho2 ! i) \<and>
            preco (voos_volta filho1 ! i) \<le> preco (voos_volta filho2 ! i) \<and>
            ((voos_ida filho1 ! i, voos_ida filho2 ! i) = (voos_ida pai1 ! i, voos_ida pai2 ! i) \<or>
             (voos_ida filho1 ! i, voos_ida filho2 ! i) = (voos_ida pai2 ! i, voos_ida pai1 ! i)) \<and>
            ((voos_volta filho1 ! i, voos_volta filho2 ! i)
               = (voos_volta pai1 ! i, voos_volta pai2 ! i) \<or>
             (voos_volta filho1 ! i, voos_volta filho2 ! i)
               = (voos_volta pai2 ! i, voos_volta pai1 ! i)))"
proof -
  from assms(5) have "n \<noteq> 0" by simp
  from custo_resultado[OF assms(1-4) this, of g] show ?thesis
    by (auto simp: Cromossomo_def)
qed

text \<open>Two sample parents: the first child collects the cheaper flights.\<close>

theorem custo_filho1_mais_barato_witness:
  "\<exists>filho1 filho2.
     cruzamento_baseado_custo
       (Cromossomo [ida_mad_tarde, ida_lis] [volta_mad_tarde, volta_lis])
       (Cromossomo [ida_mad_cedo, ida_lis] [volta_mad_cedo, volta_lis]) (sorteios [])
       = Inr ((filho1, filho2), sorteios []) \<and>
     voos_ida filho1 = [ida_mad_cedo, ida_lis] \<and> voos_ida filho2 = [ida_mad_tarde, ida_lis] \<and>
     voos_volta filho1 = [volta_mad_tarde, volta_lis] \<and>
     voos_volta filho2 = [volta_mad_cedo, volta_lis] \<and>
     preco (voos_ida filho1 ! 0) \<le> preco (voos_ida filho2 ! 0)"
proof -
  let ?p1 = "Cromossomo [ida_mad_tarde, ida_lis] [volta_mad_tarde, volta_lis]"
  let ?p2 = "Cromossomo [ida_mad_cedo, ida_lis] [volta_mad_cedo, volta_lis]"
  have l: "length (voos_ida ?p1) = 2" "length (voos_ida ?p2) = 2"
    "length (voos_volta ?p1) = 2" "length (voos_volta ?p2) = 2" "(1::nat) \<le> 2"
    by (simp_all add: Cromossomo_def)
  from custo_filho1_mais_barato[OF l, of "sorteios []"] obtain f1 f2 where
    r: "cruzamento_baseado_custo ?p1 ?p2 (sorteios []) = Inr ((f1, f2), sorteios [])"
    and h: "\<forall>i<2. preco (voos_ida f1 ! i) \<le> preco (voos_ida f2 ! i)" by blast
  have e: "cruzamento_baseado_custo ?p1 ?p2 (sorteios []) =
    Inr ((Cromossomo [ida_mad_cedo, ida_lis] [volta_mad_tarde, volta_lis],
          Cromossomo [ida_mad_tarde, ida_lis] [volta_mad_cedo, volta_lis]), sorteios [])"
    by (simp add: cruzamento_baseado_custo_def Cromossomo_def upt_rec exemplos)
  from h have "preco (voos_ida f1 ! 0) \<le> preco (voos_ida f2 ! 0)" by simp
  with r e show ?thesis by (auto simp: Cromossomo_def)
qed

section \<open>Fitness\<close>

lemma foldl_soma: "foldl (+) a xs = a + sum_list xs" for a :: real
  by (induction xs arbitrary: a) simp_all

lemma foldl_min_Min: "foldl min x xs = Min (set (x # xs))" for x :: int
proof (induction xs arbitrary: x)
  case Nil
  then show ?case by simp
next
  case (Cons y ys)
  have "foldl min x (y # ys) = Min (set (min x y # ys))" using Cons.IH by simp
  also have "\<dots> = Min (set (x # y # ys))"
    by (cases "ys = []") (simp_all add: min.assoc)
  finally show ?case .
qed

lemma foldl_max_Max: "foldl max x xs = Max (set (x # xs))" for x :: int
proof (induction xs arbitrary: x)
  case Nil
  then show ?case by simp
next
  case (Cons y ys)
  have "foldl max x (y # ys) = Max (set (max x y # ys))" using Cons.IH by simp
  also have "\<dots> = Max (set (x # y # ys))"
    by (cases "ys = []") (simp_all add: max.assoc)
  finally show ?case .
qed

lemma lista_min_Min: "xs \<noteq> [] \<Longrightarrow> lista_min xs = Min (set xs)"
  by (cases xs) (simp_all add: foldl_min_Min del: set_simps)

lemma lista_max_Max: "xs \<noteq> [] \<Longrightarrow> lista_max xs = Max (set xs)"
  by (cases xs) (simp_all add: foldl_max_Max del: set_simps)

text \<open>
  Claim C6. For a chromosome with genes on both legs the fitness is minus the weighted
  sum of the total price of all chosen flights, of the span in hours between the first and
  the last outbound arrival, and of the span in hours between the first and the last
  return departure. With an empty outbound or return list it is the fixed penalty
  \<open>-1000000000\<close>; nothing is raised.
\<close>

theorem calcular_fitness_formula:
  "(voos_ida c \<noteq> [] \<and> voos_volta c \<noteq> [] \<longrightarrow>
      calcular_fitness ag c =
        - (peso_custo ag * ((\<Sum>v\<leftarrow>voos_ida c. preco v) + (\<Sum>v\<leftarrow>voos_volta c. preco v))
           + peso_gap_chegada ag *
               (real_of_int (Max (horario_chegada ` set (voos_ida c))
                             - Min (horario_chegada ` set (voos_ida c))) / 3600000000)
           + peso_gap_saida ag *
               (real_of_int (Max (horario_saida ` set (voos_volta c))
                             - Min (horario_saida ` set (voos_volta c))) / 3600000000))) \<and>
   (voos_ida c = [] \<or> voos_volta c = [] \<longrightarrow> calcular_fitness ag c = - 1000000000)"
  by (simp add: calcular_fitness_def Let_def foldl_soma lista_min_Min lista_max_Max horas_def)

text \<open>Prices 200 + 120 + 150 + 110 and two spans of three hours at weight 100.\<close>

theorem calcular_fitness_formula_witness:
  "calcular_fitness (AlgoritmoGenetico [pessoa_mad, pessoa_lis] ''FCO'' 100 0.1 0.05 50 1 100 100)
     (Cromossomo [ida_mad_tarde, ida_lis] [volta_mad_cedo, volta_lis]) = - 1180 \<and>
   calcular_fitness (AlgoritmoGenetico [pessoa_mad, pessoa_lis] ''FCO'' 100 0.1 0.05 50 1 100 100)
     (Cromossomo [] []) = - 1000000000"
  using calcular_fitness_formula
    [of "Cromossomo [ida_mad_tarde, ida_lis] [volta_mad_cedo, volta_lis]"
        "AlgoritmoGenetico [pessoa_mad, pessoa_lis] ''FCO'' 100 0.1 0.05 50 1 100 100"]
    calcular_fitness_formula
    [of "Cromossomo [] []"
        "AlgoritmoGenetico [pessoa_mad, pessoa_lis] ''FCO'' 100 0.1 0.05 50 1 100 100"]
  by (simp add: Cromossomo_def AlgoritmoGenetico_def exemplos)


section \<open>Mutation\<close>

lemma random_random_nonneg: "random_random g = (u, g') \<Longrightarrow> 0 \<le> u"
  by (auto simp: random_random_def split: prod.splits)

lemma mutar_gene_zero:
  "taxa \<le> 0 \<Longrightarrow> mutar_gene taxa cardapio genes i g = Inr (genes, snd (random_random g))"
proof -
  assume t: "taxa \<le> 0"
  obtain u g1 where r: "random_random g = (u, g1)" by (cases "random_random g")
  from random_random_nonneg[OF r] t have "\<not> u < taxa" by simp
  with r show ?thesis by (simp add: mutar_gene_def)
qed

lemma mutacao_laco_zero:
  "taxa \<le> 0 \<Longrightarrow> mutacao_laco ag taxa js c g = Inr (c', g') \<Longrightarrow> c' = c"
proof (induction js arbitrary: g)
  case Nil
  then show ?case by simp
next
  case (Cons j js)
  then show ?case
    by (auto simp: bindE_eq_Inr mutar_gene_zero)
qed

lemma mutacao_laco_zero_total:
  "taxa \<le> 0 \<Longrightarrow> \<forall>j\<in>set js. j < length (pessoas ag) \<Longrightarrow>
   \<exists>g'. mutacao_laco ag taxa js c g = Inr (c, g')"
proof (induction js arbitrary: g)
  case Nil
  then show ?case by simp
next
  case (Cons j js)
  then show ?case by (simp add: mutar_gene_zero)
qed

lemma inteligente_sem_reparo:
  assumes "taxa_mutacao ag = 0"
    and "length (voos_ida c) \<le> 1 \<or>
         horas (lista_max (map horario_chegada (voos_ida c))
                - lista_min (map horario_chegada (voos_ida c))) \<le> 1"
    and "length (voos_volta c) \<le> 1 \<or>
         horas (lista_max (map horario_saida (voos_volta c))
                - lista_min (map horario_saida (voos_volta c))) \<le> 1"
    and "mutacao_inteligente ag c g = Inr (c', g')"
  shows "c' = c"
proof (cases "pessoas ag = []")
  case True
  with assms(4) show ?thesis by (simp add: mutacao_inteligente_def)
next
  case False
  from assms(2,3,4) False have
    "mutacao_laco ag (taxa_mutacao ag * 0.2) [0..<length (voos_ida c)] c g = Inr (c', g')"
    by (auto simp: mutacao_inteligente_def reparar_chegada_def reparar_saida_def Let_def
        split: if_splits)
  from mutacao_laco_zero[OF _ this] assms(1) show ?thesis by simp
qed

text \<open>
  Claim C5, as amended. With \<open>taxa_mutacao = 0\<close> the chromosome that
  \<open>mutacao_tradicional\<close> returns is the one it received, for every random source, and it
  does return when the chromosome has no more outbound genes than there are persons. For
  \<open>mutacao_inteligente\<close> the rate only switches off the final random loop: the result is
  the chromosome received whenever neither repair applies, that is, each leg has fewer
  than two genes or a span of at most one hour.
\<close>

theorem taxa_zero_nao_muta:
  assumes "taxa_mutacao ag = 0"
  shows "(mutacao_tradicional ag c g = Inr (c', g') \<longrightarrow> c' = c) \<and>
         (length (voos_ida c) \<le> length (pessoas ag) \<longrightarrow>
            (\<exists>g1. mutacao_tradicional ag c g = Inr (c, g1))) \<and>
         (mutacao_inteligente ag c g = Inr (c'', g'') \<and>
          (length (voos_ida c) \<le> 1 \<or>
             horas (lista_max (map horario_chegada (voos_ida c))
                    - lista_min (map horario_chegada (voos_ida c))) \<le> 1) \<and>
          (length (voos_volta c) \<le> 1 \<or>
             horas (lista_max (map horario_saida (voos_volta c))
                    - lista_min (map horario_saida (voos_volta c))) \<le> 1)
          \<longrightarrow> c'' = c)"
proof (intro conjI impI)
  assume "mutacao_tradicional ag c g = Inr (c', g')"
  then show "c' = c"
    using assms mutacao_laco_zero[of "taxa_mutacao ag" ag "[0..<length (voos_ida c)]" c g c' g']
    by (simp add: mutacao_tradicional_def)
next
  assume "length (voos_ida c) \<le> length (pessoas ag)"
  then have "\<forall>j\<in>set [0..<length (voos_ida c)]. j < length (pessoas ag)" by simp
  from mutacao_laco_zero_total[OF _ this, of "taxa_mutacao ag" c g] assms
  show "\<exists>g1. mutacao_tradicional ag c g = Inr (c, g1)"
    by (simp add: mutacao_tradicional_def)
next
  assume h: "mutacao_inteligente ag c g = Inr (c'', g'') \<and>
          (length (voos_ida c) \<le> 1 \<or>
             horas (lista_max (map horario_chegada (voos_ida c))
                    - lista_min (map horario_chegada (voos_ida c))) \<le> 1) \<and>
          (length (voos_volta c) \<le> 1 \<or>
             horas (lista_max (map horario_saida (voos_volta c))
                    - lista_min (map horario_saida (voos_volta c))) \<le> 1)"
  then show "c'' = c" using inteligente_sem_reparo[OF assms, of c g c'' g''] by blast
qed


text \<open>Two persons who arrive together and leave together, at rate 0.\<close>

theorem taxa_zero_nao_muta_witness:
  "taxa_mutacao (AlgoritmoGenetico [pessoa_mad, pessoa_lis] ''FCO'' 100 0 0.05 50 1 100 100) = 0 \<and>
   (\<exists>g1. mutacao_tradicional
            (AlgoritmoGenetico [pessoa_mad, pessoa_lis] ''FCO'' 100 0 0.05 50 1 100 100)
            (Cromossomo [ida_mad_cedo, ida_lis] [volta_mad_tarde, volta_lis]) (sorteios [])
          = Inr (Cromossomo [ida_mad_cedo, ida_lis] [volta_mad_tarde, volta_lis], g1)) \<and>
   mutacao_inteligente
     (AlgoritmoGenetico [pessoa_mad, pessoa_lis] ''FCO'' 100 0 0.05 50 1 100 100)
     (Cromossomo [ida_mad_cedo, ida_lis] [volta_mad_tarde, volta_lis]) (sorteios [])
   = Inr (Cromossomo [ida_mad_cedo, ida_lis] [volta_mad_tarde, volta_lis], sorteios [])"
proof -
  let ?ag = "AlgoritmoGenetico [pessoa_mad, pessoa_lis] ''FCO'' 100 0 0.05 50 1 100 100"
  let ?c = "Cromossomo [ida_mad_cedo, ida_lis] [volta_mad_tarde, volta_lis]"
  have t: "taxa_mutacao ?ag = 0" by (simp add: AlgoritmoGenetico_def)
  have l: "length (voos_ida ?c) \<le> length (pessoas ?ag)"
    by (simp add: AlgoritmoGenetico_def Cromossomo_def)
  from taxa_zero_nao_muta[OF t, of ?c "sorteios []"] l
  have a: "\<exists>g1. mutacao_tradicional ?ag ?c (sorteios []) = Inr (?c, g1)" by blast
  have gaps: "horas (lista_max (map horario_chegada (voos_ida ?c))
                    - lista_min (map horario_chegada (voos_ida ?c))) \<le> 1"
     "horas (lista_max (map horario_saida (voos_volta ?c))
                    - lista_min (map horario_saida (voos_volta ?c))) \<le> 1"
    by (simp_all add: Cromossomo_def exemplos horas_def)
  have "\<exists>r. mutacao_inteligente ?ag ?c (sorteios []) = Inr (r, sorteios [])"
    using gaps
    by (simp add: mutacao_inteligente_def reparar_chegada_def reparar_saida_def
        AlgoritmoGenetico_def Cromossomo_def Let_def upt_rec mutar_gene_def random_random_def)
  then obtain r where r: "mutacao_inteligente ?ag ?c (sorteios []) = Inr (r, sorteios [])" ..
  with taxa_zero_nao_muta[OF t, of ?c "sorteios []" _ _ r "sorteios []"] gaps
  have "r = ?c" by blast
  with t a r show ?thesis by simp
qed

text \<open>
  Claim C5 as stated fails for \<open>mutacao_inteligente\<close>: at rate 0, with arrivals three
  hours apart, the repair of the first strategy replaces the late outbound flight.
\<close>

theorem taxa_zero_inteligente_counterexample:
  "taxa_mutacao (AlgoritmoGenetico [pessoa_mad, pessoa_lis] ''FCO'' 100 0 0.05 50 1 100 100) = 0 \<and>
   mutacao_inteligente
     (AlgoritmoGenetico [pessoa_mad, pessoa_lis] ''FCO'' 100 0 0.05 50 1 100 100)
     (Cromossomo [ida_mad_tarde, ida_lis] [volta_mad_tarde, volta_lis]) (sorteios [])
   = Inr (Cromossomo [ida_mad_cedo, ida_lis] [volta_mad_tarde, volta_lis], sorteios []) \<and>
   Cromossomo [ida_mad_cedo, ida_lis] [volta_mad_tarde, volta_lis]
     \<noteq> Cromossomo [ida_mad_tarde, ida_lis] [volta_mad_tarde, volta_lis]"
  by (simp add: mutacao_inteligente_def reparar_chegada_def reparar_saida_def
        AlgoritmoGenetico_def Cromossomo_def Let_def
        upt_rec mutar_gene_def random_random_def reparar_def random_choice_def atribuir_def
        exemplos horas_def)


lemma mutar_gene_res:
  assumes "mutar_gene taxa cardapio genes i g = Inr (genes', g')"
  shows "length genes' = length genes \<and>
         (\<forall>j<length genes. genes' ! j = genes ! j \<or> (j = i \<and> genes' ! j \<in> set cardapio))"
proof -
  obtain u g1 where r: "random_random g = (u, g1)" by (cases "random_random g")
  show ?thesis
  proof (cases "u < taxa \<and> cardapio \<noteq> []")
    case False
    with assms r have "genes' = genes" by (auto simp: mutar_gene_def split: if_splits)
    then show ?thesis by simp
  next
    case True
    obtain k g2 where p: "proximo g1 = (k, g2)" by (cases "proximo g1")
    from True have "cardapio ! (k mod length cardapio) \<in> set cardapio" by simp
    with assms r True p show ?thesis
      by (auto simp: mutar_gene_def random_choice_def atribuir_def bindE_eq_Inr nth_list_update
          split: if_splits)
  qed
qed

lemma mutar_gene_total:
  "i < length genes \<Longrightarrow> \<exists>r. mutar_gene taxa cardapio genes i g = Inr r"
  by (cases "random_random g"; cases "proximo (snd (random_random g))")
     (auto simp: mutar_gene_def random_choice_def atribuir_def)

lemma mutacao_de_refl: "mutacao_de ps c c"
  by (simp add: mutacao_de_def)

lemma mutacao_de_trans:
  "mutacao_de ps c c1 \<Longrightarrow> mutacao_de ps c1 c2 \<Longrightarrow> mutacao_de ps c c2"
  unfolding mutacao_de_def by (simp; metis)

lemma mutacao_laco_res:
  "mutacao_laco ag taxa js c g = Inr (c', g') \<Longrightarrow> mutacao_de (pessoas ag) c c'"
proof (induction js arbitrary: c g)
  case Nil
  then show ?case by (simp add: mutacao_de_refl)
next
  case (Cons j js)
  from Cons.prems obtain p ida g1 volta g2 where
    o: "obter (pessoas ag) j = Inr p"
    and a: "mutar_gene taxa (voos_ida_disponiveis p) (voos_ida c) j g = Inr (ida, g1)"
    and b: "mutar_gene taxa (voos_volta_disponiveis p) (voos_volta c) j g1 = Inr (volta, g2)"
    and r: "mutacao_laco ag taxa js (c\<lparr>voos_ida := ida, voos_volta := volta\<rparr>) g2 = Inr (c', g')"
    by (auto simp: bindE_eq_Inr)
  from o have p: "p = pessoas ag ! j" by (auto simp: obter_def split: if_splits)
  have "mutacao_de (pessoas ag) c (c\<lparr>voos_ida := ida, voos_volta := volta\<rparr>)"
    using mutar_gene_res[OF a] mutar_gene_res[OF b] unfolding mutacao_de_def p by auto
  from mutacao_de_trans[OF this Cons.IH[OF r]] show ?case .
qed

lemma mutacao_laco_total:
  "\<forall>j\<in>set js. j < length (pessoas ag) \<and> j < length (voos_ida c) \<and> j < length (voos_volta c)
   \<Longrightarrow> \<exists>r. mutacao_laco ag taxa js c g = Inr r"
proof (induction js arbitrary: c g)
  case Nil
  then show ?case by simp
next
  case (Cons j js)
  from Cons.prems have j: "j < length (pessoas ag)" "j < length (voos_ida c)"
    "j < length (voos_volta c)" by auto
  from mutar_gene_total[OF j(2)] obtain ida g1 where
    a: "mutar_gene taxa (voos_ida_disponiveis (pessoas ag ! j)) (voos_ida c) j g = Inr (ida, g1)"
    by (metis surj_pair)
  from mutar_gene_total[OF j(3)] obtain volta g2 where
    b: "mutar_gene taxa (voos_volta_disponiveis (pessoas ag ! j)) (voos_volta c) j g1
          = Inr (volta, g2)"
    by (metis surj_pair)
  have "\<forall>i\<in>set js. i < length (pessoas ag) \<and>
          i < length (voos_ida (c\<lparr>voos_ida := ida, voos_volta := volta\<rparr>)) \<and>
          i < length (voos_volta (c\<lparr>voos_ida := ida, voos_volta := volta\<rparr>))"
    using Cons.prems mutar_gene_res[OF a] mutar_gene_res[OF b] by simp
  from Cons.IH[OF this, of g2] j a b show ?case by simp
qed

lemma indice_presente: "x \<in> set xs \<Longrightarrow> \<exists>k. indice xs x = Inr k \<and> k < length xs"
  by (induction xs) auto

lemma indice_res: "indice xs x = Inr k \<Longrightarrow> k < length xs"
  by (induction xs arbitrary: k) (auto simp: bindE_eq_Inr split: if_splits)

lemma lista_max_in: "xs \<noteq> [] \<Longrightarrow> lista_max xs \<in> set xs"
  using Max_in[of "set xs"] by (simp add: lista_max_Max)

lemma lista_min_in: "xs \<noteq> [] \<Longrightarrow> lista_min xs \<in> set xs"
  using Min_in[of "set xs"] by (simp add: lista_min_Min)

lemma reparar_res:
  assumes "reparar ag horarios alvo cardapio aceita genes g = Inr (genes', g')"
  shows "length genes' = length genes \<and>
         (\<forall>j<length genes. genes' ! j = genes ! j \<or>
            genes' ! j \<in> set (cardapio (pessoas ag ! j)))"
proof -
  from assms obtain idx p where
    i: "indice horarios alvo = Inr idx" and o: "obter (pessoas ag) idx = Inr p"
    and r: "(if filter aceita (cardapio p) \<noteq> [] then
         (case random_random g of (u, g1) \<Rightarrow>
            if u < 0.6 then
              bindE (random_choice (filter aceita (cardapio p)) g1) (\<lambda>(v, g2).
              bindE (atribuir genes idx v) (\<lambda>genes'. Inr (genes', g2)))
            else Inr (genes, g1))
       else Inr (genes, g)) = Inr (genes', g')"
    by (auto simp: reparar_def bindE_eq_Inr Let_def)
  from o have p: "p = pessoas ag ! idx" by (auto simp: obter_def split: if_splits)
  obtain u g1 where u: "random_random g = (u, g1)" by (cases "random_random g")
  show ?thesis
  proof (cases "filter aceita (cardapio p) \<noteq> [] \<and> u < 0.6")
    case False
    with r u have "genes' = genes" by (auto split: if_splits)
    then show ?thesis by simp
  next
    case True
    obtain k g2 where k: "proximo g1 = (k, g2)" by (cases "proximo g1")
    let ?alts = "filter aceita (cardapio p)"
    from True have "k mod length ?alts < length ?alts" by simp
    then have "?alts ! (k mod length ?alts) \<in> set ?alts" by (rule nth_mem)
    then have m: "?alts ! (k mod length ?alts) \<in> set (cardapio p)"
      using filter_is_subset[of aceita "cardapio p"] by blast
    define v where "v = ?alts ! (k mod length ?alts)"
    from r u True k have g: "genes' = genes[idx := v]" and il: "idx < length genes"
      by (auto simp: v_def random_choice_def atribuir_def bindE_eq_Inr split: if_splits)
    from m p have "v \<in> set (cardapio (pessoas ag ! idx))" by (simp add: v_def)
    then have "\<forall>j<length genes. genes[idx := v] ! j = genes ! j \<or>
        genes[idx := v] ! j \<in> set (cardapio (pessoas ag ! j))"
      using il by (simp add: nth_list_update)
    with g show ?thesis by simp
  qed
qed

lemma reparar_total:
  assumes "alvo \<in> set horarios" "length horarios \<le> length (pessoas ag)"
    "length horarios = length genes"
  shows "\<exists>r. reparar ag horarios alvo cardapio aceita genes g = Inr r"
proof -
  from indice_presente[OF assms(1)] obtain idx where
    i: "indice horarios alvo = Inr idx" "idx < length horarios" by blast
  obtain u g1 where u: "random_random g = (u, g1)" by (cases "random_random g")
  obtain k g2 where k: "proximo g1 = (k, g2)" by (cases "proximo g1")
  from i assms(2,3) u k show ?thesis
    by (simp add: reparar_def Let_def random_choice_def atribuir_def)
qed


lemma reparar_chegada_res:
  assumes "reparar_chegada ag c genes g = Inr (genes', g')"
  shows "length genes' = length genes \<and>
         (\<forall>j<length genes. genes' ! j = genes ! j \<or>
            genes' ! j \<in> set (voos_ida_disponiveis (pessoas ag ! j)))"
proof (cases "genes' = genes")
  case True
  then show ?thesis by simp
next
  case False
  with assms obtain h a f where "reparar ag h a voos_ida_disponiveis f genes g = Inr (genes', g')"
    by (auto simp: reparar_chegada_def Let_def split: if_splits)
  from reparar_res[OF this] show ?thesis .
qed

lemma reparar_saida_res:
  assumes "reparar_saida ag c genes g = Inr (genes', g')"
  shows "length genes' = length genes \<and>
         (\<forall>j<length genes. genes' ! j = genes ! j \<or>
            genes' ! j \<in> set (voos_volta_disponiveis (pessoas ag ! j)))"
proof (cases "genes' = genes")
  case True
  then show ?thesis by simp
next
  case False
  with assms obtain h a f where "reparar ag h a voos_volta_disponiveis f genes g = Inr (genes', g')"
    by (auto simp: reparar_saida_def Let_def split: if_splits)
  from reparar_res[OF this] show ?thesis .
qed

lemma reparar_chegada_total:
  assumes "length (voos_ida c) \<le> length (pessoas ag)" "length genes = length (voos_ida c)"
  shows "\<exists>r. reparar_chegada ag c genes g = Inr r"
proof (cases "1 < length (voos_ida c)")
  case False
  then show ?thesis by (simp add: reparar_chegada_def)
next
  case True
  then have "map horario_chegada (voos_ida c) \<noteq> []" by auto
  from lista_max_in[OF this] have
    "lista_max (map horario_chegada (voos_ida c)) \<in> set (map horario_chegada (voos_ida c))" .
  from reparar_total[OF this, of ag genes] assms show ?thesis
    by (simp add: reparar_chegada_def Let_def)
qed

lemma reparar_saida_total:
  assumes "length (voos_volta c) \<le> length (pessoas ag)" "length genes = length (voos_volta c)"
  shows "\<exists>r. reparar_saida ag c genes g = Inr r"
proof (cases "1 < length (voos_volta c)")
  case False
  then show ?thesis by (simp add: reparar_saida_def)
next
  case True
  then have "map horario_saida (voos_volta c) \<noteq> []" by auto
  from lista_min_in[OF this] have
    "lista_min (map horario_saida (voos_volta c)) \<in> set (map horario_saida (voos_volta c))" .
  from reparar_total[OF this, of ag genes] assms show ?thesis
    by (simp add: reparar_saida_def Let_def)
qed

lemma tradicional_res:
  "mutacao_tradicional ag c g = Inr (c', g') \<Longrightarrow> mutacao_de (pessoas ag) c c'"
  using mutacao_laco_res[of ag "taxa_mutacao ag" "[0..<length (voos_ida c)]" c g c' g']
  by (simp add: mutacao_tradicional_def)

lemma inteligente_res:
  assumes "mutacao_inteligente ag c g = Inr (c', g')"
  shows "mutacao_de (pessoas ag) c c'"
proof (cases "pessoas ag = []")
  case True
  with assms show ?thesis by (simp add: mutacao_inteligente_def mutacao_de_refl)
next
  case False
  with assms obtain ida g1 volta g2 where
    a: "reparar_chegada ag c (voos_ida c) g = Inr (ida, g1)"
    and b: "reparar_saida ag c (voos_volta c) g1 = Inr (volta, g2)"
    and l: "mutacao_laco ag (taxa_mutacao ag * 0.2) [0..<length ida]
              (c\<lparr>voos_ida := ida, voos_volta := volta\<rparr>) g2 = Inr (c', g')"
    by (auto simp: mutacao_inteligente_def bindE_eq_Inr)
  have "mutacao_de (pessoas ag) c (c\<lparr>voos_ida := ida, voos_volta := volta\<rparr>)"
    using reparar_chegada_res[OF a] reparar_saida_res[OF b] by (simp add: mutacao_de_def)
  from mutacao_de_trans[OF this mutacao_laco_res[OF l]] show ?thesis .
qed

lemma tradicional_total:
  assumes "length (voos_ida c) \<le> length (pessoas ag)" "length (voos_ida c) \<le> length (voos_volta c)"
  shows "\<exists>r. mutacao_tradicional ag c g = Inr r"
proof -
  have "\<forall>j\<in>set [0..<length (voos_ida c)].
          j < length (pessoas ag) \<and> j < length (voos_ida c) \<and> j < length (voos_volta c)"
    using assms by auto
  from mutacao_laco_total[OF this] show ?thesis by (simp add: mutacao_tradicional_def)
qed

lemma inteligente_total:
  assumes "length (voos_ida c) \<le> length (pessoas ag)"
    "length (voos_volta c) \<le> length (pessoas ag)"
    "length (voos_ida c) \<le> length (voos_volta c)"
  shows "\<exists>r. mutacao_inteligente ag c g = Inr r"
proof (cases "pessoas ag = []")
  case True
  then show ?thesis by (simp add: mutacao_inteligente_def)
next
  case False
  from reparar_chegada_total[OF assms(1), of "voos_ida c" g] obtain ida g1 where
    a: "reparar_chegada ag c (voos_ida c) g = Inr (ida, g1)" by (metis surj_pair)
  from reparar_saida_total[OF assms(2), of "voos_volta c" g1] obtain volta g2 where
    b: "reparar_saida ag c (voos_volta c) g1 = Inr (volta, g2)" by (metis surj_pair)
  have "\<forall>j\<in>set [0..<length ida]. j < length (pessoas ag) \<and>
          j < length (voos_ida (c\<lparr>voos_ida := ida, voos_volta := volta\<rparr>)) \<and>
          j < length (voos_volta (c\<lparr>voos_ida := ida, voos_volta := volta\<rparr>))"
    using reparar_chegada_res[OF a] reparar_saida_res[OF b] assms by auto
  from mutacao_laco_total[OF this, of "taxa_mutacao ag * 0.2" g2] a b False show ?thesis
    by (simp add: mutacao_inteligente_def)
qed

text \<open>
  Claim C10, as amended. For a chromosome with no more genes per leg than there are
  persons, what either mutation returns has the lengths of the input, and at every
  position the gene is the input's gene or a flight on the menu of the person at that
  position for that leg. Both mutations return a chromosome when the return list is at
  least as long as the outbound list.
\<close>

theorem mutacoes_preservam_cardapio:
  assumes "length (voos_ida c) \<le> length (pessoas ag)"
    and "length (voos_volta c) \<le> length (pessoas ag)"
    and "mutacao \<in> {mutacao_tradicional, mutacao_inteligente}"
  shows "(mutacao ag c g = Inr (c', g') \<longrightarrow> mutacao_de (pessoas ag) c c') \<and>
         (length (voos_ida c) \<le> length (voos_volta c) \<longrightarrow> (\<exists>r. mutacao ag c g = Inr r))"
proof -
  from assms(3) consider "mutacao = mutacao_tradicional" | "mutacao = mutacao_inteligente"
    by blast
  then show ?thesis
  proof cases
    case 1
    then show ?thesis
      using tradicional_res[of ag c g c' g'] tradicional_total[OF assms(1), of g] by auto
  next
    case 2
    then show ?thesis
      using inteligente_res[of ag c g c' g'] inteligente_total[OF assms(1,2), of g] by auto
  qed
qed

text \<open>At rate 1 the draws 0, 1 send the first person to the late outbound flight.\<close>

theorem mutacoes_preservam_cardapio_witness:
  "length (voos_ida (Cromossomo [ida_mad_cedo, ida_lis] [volta_mad_tarde, volta_lis]))
     \<le> length (pessoas (AlgoritmoGenetico [pessoa_mad, pessoa_lis] ''FCO'' 100 1 0.05 50 1 100 100)) \<and>
   length (voos_volta (Cromossomo [ida_mad_cedo, ida_lis] [volta_mad_tarde, volta_lis]))
     \<le> length (pessoas (AlgoritmoGenetico [pessoa_mad, pessoa_lis] ''FCO'' 100 1 0.05 50 1 100 100)) \<and>
   mutacao_tradicional (AlgoritmoGenetico [pessoa_mad, pessoa_lis] ''FCO'' 100 1 0.05 50 1 100 100)
     (Cromossomo [ida_mad_cedo, ida_lis] [volta_mad_tarde, volta_lis]) (sorteios [0, 1])
     = Inr (Cromossomo [ida_mad_tarde, ida_lis] [volta_mad_tarde, volta_lis], sorteios []) \<and>
   mutacao_de [pessoa_mad, pessoa_lis]
     (Cromossomo [ida_mad_cedo, ida_lis] [volta_mad_tarde, volta_lis])
     (Cromossomo [ida_mad_tarde, ida_lis] [volta_mad_tarde, volta_lis])"
proof -
  let ?ag = "AlgoritmoGenetico [pessoa_mad, pessoa_lis] ''FCO'' 100 1 0.05 50 1 100 100"
  let ?c = "Cromossomo [ida_mad_cedo, ida_lis] [volta_mad_tarde, volta_lis]"
  have a: "length (voos_ida ?c) \<le> length (pessoas ?ag)"
    and b: "length (voos_volta ?c) \<le> length (pessoas ?ag)"
    by (simp_all add: AlgoritmoGenetico_def Cromossomo_def)
  have m: "mutacao_tradicional \<in> {mutacao_tradicional, mutacao_inteligente}" by simp
  have e: "mutacao_tradicional ?ag ?c (sorteios [0, 1])
     = Inr (Cromossomo [ida_mad_tarde, ida_lis] [volta_mad_tarde, volta_lis], sorteios [])"
    by (simp add: mutacao_tradicional_def AlgoritmoGenetico_def Cromossomo_def Let_def
        upt_rec mutar_gene_def random_random_def random_choice_def atribuir_def
        pessoa_mad_def pessoa_lis_def)
  from mutacoes_preservam_cardapio[OF a b m, of "sorteios [0, 1]"] e
  have "mutacao_de (pessoas ?ag) ?c (Cromossomo [ida_mad_tarde, ida_lis] [volta_mad_tarde, volta_lis])"
    by blast
  then have "mutacao_de [pessoa_mad, pessoa_lis] ?c
      (Cromossomo [ida_mad_tarde, ida_lis] [volta_mad_tarde, volta_lis])"
    by (simp add: AlgoritmoGenetico_def)
  with a b e show ?thesis by blast
qed

text \<open>
  Claim C10 as stated fails: with one outbound gene and no return gene the loop assigns
  to \<open>voos_volta[0]\<close> and raises \<open>IndexError\<close>, so no chromosome is returned.
\<close>

theorem mutacao_tradicional_counterexample:
  "length (voos_ida (Cromossomo [ida_lis] []))
     \<le> length (pessoas (AlgoritmoGenetico [pessoa_lis] ''FCO'' 100 1 0.05 50 1 100 100)) \<and>
   length (voos_volta (Cromossomo [ida_lis] []))
     \<le> length (pessoas (AlgoritmoGenetico [pessoa_lis] ''FCO'' 100 1 0.05 50 1 100 100)) \<and>
   mutacao_tradicional (AlgoritmoGenetico [pessoa_lis] ''FCO'' 100 1 0.05 50 1 100 100)
     (Cromossomo [ida_lis] []) (sorteios []) = Inl IndexError"
  by (simp add: mutacao_tradicional_def AlgoritmoGenetico_def Cromossomo_def Let_def
        mutar_gene_def random_random_def random_choice_def atribuir_def pessoa_lis_def)

section \<open>Seeding\<close>

lemma random_choice_total: "xs \<noteq> [] \<Longrightarrow> \<exists>v g'. random_choice xs g = Inr (v, g')"
  by (cases "proximo g") (simp add: random_choice_def)

lemma escolher_voos_vazio:
  "\<exists>p\<in>set ps. voos_ida_disponiveis p = [] \<or> voos_volta_disponiveis p = [] \<Longrightarrow>
   \<exists>g'. escolher_voos ps sel g = Inl (ValueError, g')"
proof (induction ps arbitrary: sel g)
  case Nil
  then show ?case by simp
next
  case (Cons p ps)
  obtain ida volta where sel: "sel = (ida, volta)" by (cases sel)
  show ?case
  proof (cases "voos_ida_disponiveis p = [] \<or> voos_volta_disponiveis p = []")
    case True
    then show ?thesis unfolding sel by auto
  next
    case False
    with Cons.prems have r: "\<exists>q\<in>set ps. voos_ida_disponiveis q = [] \<or> voos_volta_disponiveis q = []"
      by auto
    from False random_choice_total[of "voos_ida_disponiveis p" g] obtain vi g1 where
      a: "random_choice (voos_ida_disponiveis p) g = Inr (vi, g1)" by auto
    from False random_choice_total[of "voos_volta_disponiveis p" g1] obtain vv g2 where
      b: "random_choice (voos_volta_disponiveis p) g1 = Inr (vv, g2)" by auto
    from Cons.IH[OF r, of "(ida @ [vi], volta @ [vv])" g2] False a b show ?thesis
      unfolding sel by simp
  qed
qed

text \<open>
  Claim C9, as amended. With no person the seeding raises \<open>ValueError\<close> before it touches
  the population, and \<open>executar\<close> returns no solution and empty histories with the engine
  as it was (its population is empty on a new engine). With persons, a population size of
  at least 1 and a person whose outbound or return menu is empty, the seeding raises
  \<open>ValueError\<close> while it builds the first chromosome: the population is empty then, and
  \<open>executar\<close> returns no solution and empty histories.
\<close>

theorem semeadura_aborta:
  "(pessoas ag = [] \<longrightarrow>
      gerar_populacao_inicial ag g = Inl (ValueError, ag, g) \<and>
      executar ag max_geracoes tipo intel g = Inr ((None, [], []), ag, g)) \<and>
   (pessoas ag \<noteq> [] \<and> 1 \<le> tamanho_populacao ag \<and>
    (\<exists>p\<in>set (pessoas ag). voos_ida_disponiveis p = [] \<or> voos_volta_disponiveis p = []) \<longrightarrow>
      (\<exists>g'. gerar_populacao_inicial ag g = Inl (ValueError, ag\<lparr>populacao := []\<rparr>, g') \<and>
            executar ag max_geracoes tipo intel g
              = Inr ((None, [], []), ag\<lparr>populacao := []\<rparr>, g')))"
proof (rule conjI; rule impI)
  assume "pessoas ag = []"
  then show "gerar_populacao_inicial ag g = Inl (ValueError, ag, g) \<and>
      executar ag max_geracoes tipo intel g = Inr ((None, [], []), ag, g)"
    by (simp add: gerar_populacao_inicial_def executar_def)
next
  assume h: "pessoas ag \<noteq> [] \<and> 1 \<le> tamanho_populacao ag \<and>
    (\<exists>p\<in>set (pessoas ag). voos_ida_disponiveis p = [] \<or> voos_volta_disponiveis p = [])"
  then obtain k where k: "nat (tamanho_populacao ag) = Suc k"
    by (cases "nat (tamanho_populacao ag)") auto
  from h have "\<exists>p\<in>set (pessoas (ag\<lparr>populacao := []\<rparr>)).
      voos_ida_disponiveis p = [] \<or> voos_volta_disponiveis p = []" by simp
  from escolher_voos_vazio[OF this, of "([], [])" g] obtain g' where
    e: "escolher_voos (pessoas (ag\<lparr>populacao := []\<rparr>)) ([], []) g = Inl (ValueError, g')" by blast
  have a: "gerar_populacao_inicial ag g = Inl (ValueError, ag\<lparr>populacao := []\<rparr>, g')"
    using h k e by (simp add: gerar_populacao_inicial_def)
  then have "executar ag max_geracoes tipo intel g = Inr ((None, [], []), ag\<lparr>populacao := []\<rparr>, g')"
    using h by (simp add: executar_def)
  with a show "\<exists>g'. gerar_populacao_inicial ag g = Inl (ValueError, ag\<lparr>populacao := []\<rparr>, g') \<and>
            executar ag max_geracoes tipo intel g
              = Inr ((None, [], []), ag\<lparr>populacao := []\<rparr>, g')" by blast
qed

text \<open>An engine without persons, and one whose second person has no outbound flight.\<close>

theorem semeadura_aborta_witness:
  "gerar_populacao_inicial (AlgoritmoGenetico [] ''FCO'' 100 0.1 0.05 50 1 100 100) (sorteios [])
     = Inl (ValueError, AlgoritmoGenetico [] ''FCO'' 100 0.1 0.05 50 1 100 100, sorteios []) \<and>
   (\<exists>g'. gerar_populacao_inicial
           (AlgoritmoGenetico [pessoa_lis, pessoa_sem_ida] ''FCO'' 100 0.1 0.05 50 1 100 100)
           (sorteios [])
         = Inl (ValueError,
                AlgoritmoGenetico [pessoa_lis, pessoa_sem_ida] ''FCO'' 100 0.1 0.05 50 1 100 100, g') \<and>
        executar (AlgoritmoGenetico [pessoa_lis, pessoa_sem_ida] ''FCO'' 100 0.1 0.05 50 1 100 100)
           150 ''uniforme'' False (sorteios [])
         = Inr ((None, [], []),
                AlgoritmoGenetico [pessoa_lis, pessoa_sem_ida] ''FCO'' 100 0.1 0.05 50 1 100 100, g'))"
proof -
  let ?a = "AlgoritmoGenetico [] ''FCO'' 100 0.1 0.05 50 1 100 100"
  let ?b = "AlgoritmoGenetico [pessoa_lis, pessoa_sem_ida] ''FCO'' 100 0.1 0.05 50 1 100 100"
  have a: "pessoas ?a = []" by (simp add: AlgoritmoGenetico_def)
  have b: "pessoas ?b \<noteq> [] \<and> 1 \<le> tamanho_populacao ?b \<and>
    (\<exists>p\<in>set (pessoas ?b). voos_ida_disponiveis p = [] \<or> voos_volta_disponiveis p = [])"
    by (simp add: AlgoritmoGenetico_def pessoa_sem_ida_def)
  have c: "?b\<lparr>populacao := []\<rparr> = ?b" by (simp add: AlgoritmoGenetico_def)
  from semeadura_aborta[of ?a "sorteios []"] a
    semeadura_aborta[of ?b "sorteios []" 150 "''uniforme''" False] b
  show ?thesis unfolding c by blast
qed

text \<open>
  Claim C9 as stated fails for a population size of 0: the loop that tests the menus is
  never entered, the seeding returns an empty population and \<open>executar\<close> leaves with the
  \<open>ValueError\<close> of \<open>max\<close> on an empty population instead of returning.
\<close>

theorem semeadura_populacao_zero_counterexample:
  "(\<exists>p\<in>set (pessoas (AlgoritmoGenetico [pessoa_sem_ida] ''FCO'' 0 0.1 0.05 50 1 100 100)).
      voos_ida_disponiveis p = []) \<and>
   gerar_populacao_inicial (AlgoritmoGenetico [pessoa_sem_ida] ''FCO'' 0 0.1 0.05 50 1 100 100)
     (sorteios [])
     = Inr (AlgoritmoGenetico [pessoa_sem_ida] ''FCO'' 0 0.1 0.05 50 1 100 100, sorteios []) \<and>
   executar (AlgoritmoGenetico [pessoa_sem_ida] ''FCO'' 0 0.1 0.05 50 1 100 100)
     1 ''uniforme'' False (sorteios []) = Inl ValueError"
  by (simp add: AlgoritmoGenetico_def pessoa_sem_ida_def gerar_populacao_inicial_def
      executar_def geracao_def avaliar_populacao_def)

section \<open>The generations\<close>

lemma calcular_fitness_populacao [simp]:
  "calcular_fitness (ag\<lparr>populacao := p\<rparr>) c = calcular_fitness ag c"
  by (simp add: calcular_fitness_def)

lemma calcular_fitness_registro [simp]:
  "calcular_fitness (ag\<lparr>melhor_fitness := m\<rparr>) c = calcular_fitness ag c"
  "calcular_fitness (ag\<lparr>geracoes_sem_melhoria := k\<rparr>) c = calcular_fitness ag c"
  by (simp_all add: calcular_fitness_def)

lemma calcular_fitness_fitness [simp]:
  "calcular_fitness ag (c\<lparr>fitness := x\<rparr>) = calcular_fitness ag c"
  by (simp add: calcular_fitness_def)

lemma foldl_max_fitness:
  "foldl (\<lambda>m x. if fitness m < fitness x then x else m) c cs \<in> set (c # cs) \<and>
   (\<forall>x\<in>set (c # cs). fitness x \<le> fitness (foldl (\<lambda>m x. if fitness m < fitness x then x else m) c cs))"
proof (induction cs arbitrary: c)
  case Nil
  then show ?case by simp
next
  case (Cons d cs)
  show ?case
  proof (cases "fitness c < fitness d")
    case True
    with Cons.IH[of d] show ?thesis by auto
  next
    case False
    with Cons.IH[of c] show ?thesis by auto
  qed
qed

lemma max_por_fitness_res:
  "max_por_fitness pop = Inr m \<Longrightarrow> m \<in> set pop \<and> (\<forall>c\<in>set pop. fitness c \<le> fitness m)"
  using foldl_max_fitness by (cases pop) auto

lemma max_por_fitness_total: "pop \<noteq> [] \<Longrightarrow> \<exists>m. max_por_fitness pop = Inr m"
  by (cases pop) auto

lemma ordenada_cabeca:
  assumes "pop \<noteq> []"
  shows "sort_key (\<lambda>c. - fitness c) pop \<noteq> [] \<and>
         hd (sort_key (\<lambda>c. - fitness c) pop) \<in> set pop \<and>
         (\<forall>c\<in>set pop. fitness c \<le> fitness (hd (sort_key (\<lambda>c. - fitness c) pop)))"
proof -
  let ?s = "sort_key (\<lambda>c. - fitness c) pop"
  have st: "set ?s = set pop" by simp
  have "length ?s = length pop" by simp
  with assms have ne: "?s \<noteq> []" by (metis length_0_conv)
  then obtain x xs where s: "?s = x # xs" by (cases ?s) auto
  have "sorted (map (\<lambda>c. - fitness c) ?s)" by (rule sorted_sort_key)
  then have "\<forall>y\<in>set xs. fitness y \<le> fitness x" unfolding s by auto
  then have "\<forall>c\<in>set ?s. fitness c \<le> fitness x" unfolding s by auto
  with st s ne show ?thesis by (metis list.sel(1) list.set_intros(1))
qed

lemma preencher_prefixo:
  "preencher ag t u nova g = Inr (nova', g') \<Longrightarrow> \<exists>ys. nova' = nova @ ys"
proof (induction ag t u nova g rule: preencher.induct)
  case (1 ag t u nova g)
  show ?case
  proof (cases "int (length nova) < tamanho_populacao ag")
    case False
    with "1.prems" show ?thesis by (simp add: preencher.simps)
  next
    case True
    show ?thesis
    proof (cases "selecionar_pais (populacao ag) g")
      case (Inl e)
      with True "1.prems" show ?thesis by (simp add: preencher.simps)
    next
      case (Inr r)
      obtain pais g1 where r: "r = (pais, g1)" by (cases r)
      show ?thesis
      proof (cases pais)
        case None
        with True Inr r "1.prems" show ?thesis by (simp add: preencher.simps)
      next
        case (Some ii)
        obtain i1 i2 where ii: "ii = (i1, i2)" by (cases ii)
        show ?thesis
        proof (cases "gerar_filhos ag t u (populacao ag ! i1) (populacao ag ! i2) g1")
          case (Inl e)
          with True Inr r Some ii "1.prems" show ?thesis by (simp add: preencher.simps)
        next
          case Inr2: (Inr q)
          obtain f1 f2 g2 where q: "q = ((f1, f2), g2)" by (metis surj_pair)
          from True Inr r Some ii Inr2 q "1.prems"
          have "preencher ag t u (nova @ [f1, f2]) g2 = Inr (nova', g')"
            by (simp add: preencher.simps)
          from "1.IH"[OF True Inr r[symmetric] Some ii[symmetric] Inr2 q[symmetric] refl this]
          show ?thesis by auto
        qed
      qed
    qed
  qed
qed


lemma prefixo_cabeca:
  "1 \<le> n \<Longrightarrow> xs \<noteq> [] \<Longrightarrow> prefixo xs n \<noteq> [] \<and> hd (prefixo xs n) = hd xs"
proof -
  assume n: "1 \<le> n" and xs: "xs \<noteq> []"
  then obtain k where k: "nat n = Suc k" by (cases "nat n") auto
  from xs obtain y ys where "xs = y # ys" by (cases xs) auto
  with n k show ?thesis by (simp add: prefixo_def)
qed

lemma elite_size_populacao [simp]: "elite_size (ag\<lparr>populacao := p\<rparr>) = elite_size ag"
  by (simp add: elite_size_def)

lemma evoluir_campos:
  "evoluir_geracao ag t u g = Inr (ag', g') \<Longrightarrow> \<exists>pop. ag' = ag\<lparr>populacao := pop\<rparr>"
  by (auto simp: evoluir_geracao_def Let_def bindE_eq_Inr)

lemma evoluir_elitismo:
  assumes "evoluir_geracao ag t u g = Inr (ag', g')" and "populacao ag \<noteq> []"
    and "1 \<le> elite_size ag" and "1 \<le> tamanho_populacao ag"
  shows "populacao ag' \<noteq> [] \<and> hd (populacao ag') \<in> set (populacao ag) \<and>
         (\<forall>c\<in>set (populacao ag). fitness c \<le> fitness (hd (populacao ag')))"
proof -
  let ?s = "sort_key (\<lambda>c. - fitness c) (populacao ag)"
  let ?ag1 = "ag\<lparr>populacao := ?s\<rparr>"
  from assms(1) obtain nova where
    p: "preencher ?ag1 t u (prefixo ?s (elite_size ag)) g = Inr (nova, g')"
    and r: "populacao ag' = prefixo nova (tamanho_populacao ag)"
    by (auto simp: evoluir_geracao_def Let_def bindE_eq_Inr)
  from ordenada_cabeca[OF assms(2)] have
    s: "?s \<noteq> []" "hd ?s \<in> set (populacao ag)"
       "\<forall>c\<in>set (populacao ag). fitness c \<le> fitness (hd ?s)" by auto
  from prefixo_cabeca[OF assms(3) s(1)] have
    e: "prefixo ?s (elite_size ag) \<noteq> []" "hd (prefixo ?s (elite_size ag)) = hd ?s" by auto
  from preencher_prefixo[OF p] obtain ys where "nova = prefixo ?s (elite_size ag) @ ys" ..
  with e have n: "nova \<noteq> []" "hd nova = hd ?s" by auto
  from prefixo_cabeca[OF assms(4) n(1)] n(2) r s show ?thesis by simp
qed

lemma geracao_res:
  assumes "geracao t u s = Inr (parar, s')"
  shows "\<exists>m. max_por_fitness (populacao (avaliar_populacao (motor s))) = Inr m \<and>
     historico_fitness s' = historico_fitness s @ [fitness m] \<and>
     length (historico_custo s') = Suc (length (historico_custo s)) \<and>
     (melhor_fitness (motor s'), geracoes_sem_melhoria (motor s'))
       = registrar (melhor_fitness (motor s), geracoes_sem_melhoria (motor s)) (fitness m) \<and>
     mesma_configuracao (motor s) (motor s') \<and>
     (parar \<longrightarrow>
        (criterio_parada_avancado (historico_fitness s') \<or>
         geracoes_sem_melhoria_max (motor s) \<le> geracoes_sem_melhoria (motor s')) \<and>
        populacao (motor s') = populacao (avaliar_populacao (motor s))) \<and>
     (\<not> parar \<longrightarrow>
        \<not> criterio_parada_avancado (historico_fitness s') \<and>
        geracoes_sem_melhoria (motor s') < geracoes_sem_melhoria_max (motor s) \<and>
        (\<exists>mf k g'. evoluir_geracao
            ((avaliar_populacao (motor s))\<lparr>melhor_fitness := mf, geracoes_sem_melhoria := k\<rparr>)
            t u (fonte s) = Inr (motor s', g')))"
proof -
  let ?ag = "avaliar_populacao (motor s)"
  from assms obtain m where m: "max_por_fitness (populacao ?ag) = Inr m"
    by (auto simp: geracao_def Let_def bindE_eq_Inr)
  define ag1 where "ag1 = (if (case melhor_fitness ?ag of None \<Rightarrow> True | Some b \<Rightarrow> b < fitness m)
                   then ?ag\<lparr>melhor_fitness := Some (fitness m), geracoes_sem_melhoria := 0\<rparr>
                   else ?ag\<lparr>geracoes_sem_melhoria := geracoes_sem_melhoria ?ag + 1\<rparr>)"
  define s1 where "s1 = s\<lparr>motor := ag1, historico_fitness := historico_fitness s @ [fitness m],
     historico_custo := historico_custo s
        @ [foldl (+) 0 (map preco (voos_ida m @ voos_volta m))]\<rparr>"
  have av: "melhor_fitness ?ag = melhor_fitness (motor s)"
    "geracoes_sem_melhoria ?ag = geracoes_sem_melhoria (motor s)"
    "geracoes_sem_melhoria_max ?ag = geracoes_sem_melhoria_max (motor s)"
    by (simp_all add: avaliar_populacao_def)
  have reg: "(melhor_fitness ag1, geracoes_sem_melhoria ag1)
       = registrar (melhor_fitness (motor s), geracoes_sem_melhoria (motor s)) (fitness m)"
    by (simp add: ag1_def registrar_def av)
  have cfg: "\<exists>mf k. ag1 = ?ag\<lparr>melhor_fitness := mf, geracoes_sem_melhoria := k\<rparr>"
  proof (cases "case melhor_fitness ?ag of None \<Rightarrow> True | Some b \<Rightarrow> b < fitness m")
    case True
    then show ?thesis unfolding ag1_def by auto
  next
    case False
    have "?ag\<lparr>geracoes_sem_melhoria := geracoes_sem_melhoria ?ag + 1\<rparr>
        = ?ag\<lparr>melhor_fitness := melhor_fitness ?ag,
              geracoes_sem_melhoria := geracoes_sem_melhoria ?ag + 1\<rparr>" by simp
    with False show ?thesis unfolding ag1_def by (simp only: if_False) blast
  qed
  then obtain mf k where ag1: "ag1 = ?ag\<lparr>melhor_fitness := mf, geracoes_sem_melhoria := k\<rparr>"
    by blast
  have mx: "geracoes_sem_melhoria_max ag1 = geracoes_sem_melhoria_max (motor s)"
    by (simp add: ag1 av)
  have cfg2: "mesma_configuracao (motor s) ag1"
    unfolding ag1 by (simp add: avaliar_populacao_def mesma_configuracao_def)
  from assms have g: "(if criterio_parada_avancado (historico_fitness s @ [fitness m])
       then Inr (True, s1)
       else if geracoes_sem_melhoria_max ag1 \<le> geracoes_sem_melhoria ag1 then Inr (True, s1)
       else bindE (evoluir_geracao ag1 t u (fonte s))
              (\<lambda>(ag2, g'). Inr (False, s1\<lparr>motor := ag2, fonte := g'\<rparr>))) = Inr (parar, s')"
    unfolding geracao_def Let_def m bindE_Inr ag1_def s1_def .
  show ?thesis
  proof (cases "criterio_parada_avancado (historico_fitness s @ [fitness m]) \<or>
                geracoes_sem_melhoria_max ag1 \<le> geracoes_sem_melhoria ag1")
    case True
    with g have "parar" "s' = s1" by (auto split: if_splits)
    with True m reg cfg2 mx show ?thesis
      by (auto simp: s1_def ag1)
  next
    case False
    with g obtain ag2 g' where e: "evoluir_geracao ag1 t u (fonte s) = Inr (ag2, g')"
      and p: "\<not> parar" and s': "s' = s1\<lparr>motor := ag2, fonte := g'\<rparr>"
      by (auto simp: bindE_eq_Inr)
    from evoluir_campos[OF e] obtain pop where ag2: "ag2 = ag1\<lparr>populacao := pop\<rparr>" ..
    have r2: "(melhor_fitness ag2, geracoes_sem_melhoria ag2)
       = registrar (melhor_fitness (motor s), geracoes_sem_melhoria (motor s)) (fitness m)"
      using reg by (simp add: ag2)
    have c2: "mesma_configuracao (motor s) ag2"
      using cfg2 unfolding ag2 by (simp add: mesma_configuracao_def)
    have ev: "\<exists>mf k g'. evoluir_geracao
            (?ag\<lparr>melhor_fitness := mf, geracoes_sem_melhoria := k\<rparr>) t u (fonte s) = Inr (ag2, g')"
      using e unfolding ag1 by blast
    from False have f: "\<not> criterio_parada_avancado (historico_fitness s @ [fitness m])"
      "geracoes_sem_melhoria ag2 < geracoes_sem_melhoria_max (motor s)"
      using mx by (auto simp: ag2)
    from p m r2 c2 ev f show ?thesis
      by (simp add: s' s1_def)
  qed
qed


lemma mesma_configuracao_refl [simp]: "mesma_configuracao a a"
  by (simp add: mesma_configuracao_def)

lemma mesma_configuracao_trans:
  "mesma_configuracao a b \<Longrightarrow> mesma_configuracao b c \<Longrightarrow> mesma_configuracao a c"
  by (simp add: mesma_configuracao_def)

lemma calcular_fitness_config:
  "mesma_configuracao a b \<Longrightarrow> calcular_fitness b c = calcular_fitness a c"
  by (simp add: mesma_configuracao_def calcular_fitness_def)

lemma elite_size_config: "mesma_configuracao a b \<Longrightarrow> elite_size b = elite_size a"
  by (simp add: mesma_configuracao_def elite_size_def)

lemma registro_Nil [simp]: "registro [] = (None, 0)"
  by (simp add: registro_def)

lemma registro_snoc [simp]: "registro (h @ [f]) = registrar (registro h) f"
  by (simp add: registro_def)

lemma gerar_laco_res:
  "gerar_laco k ag g = Inr (ag', g') \<Longrightarrow>
   \<exists>pop. ag' = ag\<lparr>populacao := pop\<rparr> \<and> length pop = length (populacao ag) + k"
proof (induction k arbitrary: ag g)
  case 0
  then have "ag' = ag\<lparr>populacao := populacao ag\<rparr>" by simp
  then show ?case by (intro exI[of _ "populacao ag"]) simp
next
  case (Suc k)
  from Suc.prems obtain ida volta g1 where
    "gerar_laco k (ag\<lparr>populacao := populacao ag @ [Cromossomo ida volta]\<rparr>) g1 = Inr (ag', g')"
    by (auto split: sum.splits prod.splits)
  from Suc.IH[OF this] show ?case by auto
qed

lemma gerar_res:
  assumes "gerar_populacao_inicial ag g = Inr (ag0, g0)"
  shows "mesma_configuracao ag ag0 \<and> melhor_fitness ag0 = melhor_fitness ag \<and>
         geracoes_sem_melhoria ag0 = geracoes_sem_melhoria ag \<and>
         length (populacao ag0) = nat (tamanho_populacao ag)"
proof -
  from assms have "gerar_laco (nat (tamanho_populacao ag)) (ag\<lparr>populacao := []\<rparr>) g = Inr (ag0, g0)"
    by (auto simp: gerar_populacao_inicial_def split: if_splits)
  from gerar_laco_res[OF this] show ?thesis
    by (auto simp: mesma_configuracao_def)
qed

lemma executar_res:
  assumes "executar ag mg t u g = Inr ((sol, hf, hc), ag', g')"
  shows "(sol = None \<and> hf = [] \<and> hc = []) \<or>
         (\<exists>c ag0 g0 s. sol = Some c \<and> gerar_populacao_inicial ag g = Inr (ag0, g0) \<and>
            laco_geracoes (nat mg) t u
              \<lparr>motor = ag0, historico_fitness = [], historico_custo = [], fonte = g0\<rparr> = Inr s \<and>
            hf = historico_fitness s \<and> hc = historico_custo s \<and>
            ag' = avaliar_populacao (motor s) \<and> max_por_fitness (populacao ag') = Inr c)"
  using assms
  by (auto simp: executar_def Let_def bindE_eq_Inr
      split: if_splits sum.splits prod.splits erro.splits)


lemma laco_registro:
  assumes "laco_geracoes k t u s = Inr s'"
    and "(melhor_fitness (motor s), geracoes_sem_melhoria (motor s))
           = registro (historico_fitness s)"
  shows "(melhor_fitness (motor s'), geracoes_sem_melhoria (motor s'))
           = registro (historico_fitness s') \<and>
         mesma_configuracao (motor s) (motor s') \<and>
         (\<exists>ext. historico_fitness s' = historico_fitness s @ ext \<and> length ext \<le> k \<and>
                length (historico_custo s') = length (historico_custo s) + length ext) \<and>
         (\<forall>i. length (historico_fitness s) < i \<and> i < length (historico_fitness s') \<longrightarrow>
              snd (registro (take i (historico_fitness s'))) < geracoes_sem_melhoria_max (motor s) \<and>
              \<not> criterio_parada_avancado (take i (historico_fitness s'))) \<and>
         (length (historico_fitness s') = length (historico_fitness s) + k \<or>
          criterio_parada_avancado (historico_fitness s') \<or>
          geracoes_sem_melhoria_max (motor s) \<le> geracoes_sem_melhoria (motor s'))"
  using assms
proof (induction k arbitrary: s)
  case 0
  then show ?case by auto
next
  case (Suc k)
  from Suc.prems(1) obtain parar s1 where
    g: "geracao t u s = Inr (parar, s1)"
    and r: "(parar \<and> s' = s1) \<or> (\<not> parar \<and> laco_geracoes k t u s1 = Inr s')"
    by (auto split: sum.splits if_splits)
  from geracao_res[OF g] obtain m where gm:
    "max_por_fitness (populacao (avaliar_populacao (motor s))) = Inr m \<and>
     historico_fitness s1 = historico_fitness s @ [fitness m] \<and>
     length (historico_custo s1) = Suc (length (historico_custo s)) \<and>
     (melhor_fitness (motor s1), geracoes_sem_melhoria (motor s1))
       = registrar (melhor_fitness (motor s), geracoes_sem_melhoria (motor s)) (fitness m) \<and>
     mesma_configuracao (motor s) (motor s1) \<and>
     (parar \<longrightarrow>
        (criterio_parada_avancado (historico_fitness s1) \<or>
         geracoes_sem_melhoria_max (motor s) \<le> geracoes_sem_melhoria (motor s1)) \<and>
        populacao (motor s1) = populacao (avaliar_populacao (motor s))) \<and>
     (\<not> parar \<longrightarrow>
        \<not> criterio_parada_avancado (historico_fitness s1) \<and>
        geracoes_sem_melhoria (motor s1) < geracoes_sem_melhoria_max (motor s) \<and>
        (\<exists>mf k g'. evoluir_geracao
            ((avaliar_populacao (motor s))\<lparr>melhor_fitness := mf, geracoes_sem_melhoria := k\<rparr>)
            t u (fonte s) = Inr (motor s1, g')))" ..
  from gm have h1: "historico_fitness s1 = historico_fitness s @ [fitness m]"
    and c1: "length (historico_custo s1) = Suc (length (historico_custo s))"
    and r1: "(melhor_fitness (motor s1), geracoes_sem_melhoria (motor s1))
       = registrar (melhor_fitness (motor s), geracoes_sem_melhoria (motor s)) (fitness m)"
    and cf: "mesma_configuracao (motor s) (motor s1)"
    and p1: "parar \<longrightarrow> criterio_parada_avancado (historico_fitness s1) \<or>
         geracoes_sem_melhoria_max (motor s) \<le> geracoes_sem_melhoria (motor s1)"
    and p2: "\<not> parar \<longrightarrow> \<not> criterio_parada_avancado (historico_fitness s1) \<and>
        geracoes_sem_melhoria (motor s1) < geracoes_sem_melhoria_max (motor s)"
    by blast+
  have i1: "(melhor_fitness (motor s1), geracoes_sem_melhoria (motor s1))
           = registro (historico_fitness s1)"
    using r1 Suc.prems(2) by (simp add: h1)
  show ?case
  proof (cases parar)
    case True
    with r have "s' = s1" by simp
    with True i1 cf p1 h1 c1 show ?thesis by auto
  next
    case False
    with r have l: "laco_geracoes k t u s1 = Inr s'" by simp
    from Suc.IH[OF l i1] obtain ext where
      a: "(melhor_fitness (motor s'), geracoes_sem_melhoria (motor s'))
           = registro (historico_fitness s')"
      and b: "mesma_configuracao (motor s1) (motor s')"
      and c: "historico_fitness s' = historico_fitness s1 @ ext" "length ext \<le> k"
             "length (historico_custo s') = length (historico_custo s1) + length ext"
      and d: "\<forall>i. length (historico_fitness s1) < i \<and> i < length (historico_fitness s') \<longrightarrow>
              snd (registro (take i (historico_fitness s'))) < geracoes_sem_melhoria_max (motor s1) \<and>
              \<not> criterio_parada_avancado (take i (historico_fitness s'))"
      and e: "length (historico_fitness s') = length (historico_fitness s1) + k \<or>
          criterio_parada_avancado (historico_fitness s') \<or>
          geracoes_sem_melhoria_max (motor s1) \<le> geracoes_sem_melhoria (motor s')"
      by blast
    have mx: "geracoes_sem_melhoria_max (motor s1) = geracoes_sem_melhoria_max (motor s)"
      using cf by (simp add: mesma_configuracao_def)
    have ex: "\<exists>ext'. historico_fitness s' = historico_fitness s @ ext' \<and> length ext' \<le> Suc k \<and>
                length (historico_custo s') = length (historico_custo s) + length ext'"
      using c h1 c1 by (intro exI[of _ "fitness m # ext"]) simp
    have mid: "\<forall>i. length (historico_fitness s) < i \<and> i < length (historico_fitness s') \<longrightarrow>
              snd (registro (take i (historico_fitness s'))) < geracoes_sem_melhoria_max (motor s) \<and>
              \<not> criterio_parada_avancado (take i (historico_fitness s'))"
    proof (intro allI impI)
      fix i assume i: "length (historico_fitness s) < i \<and> i < length (historico_fitness s')"
      show "snd (registro (take i (historico_fitness s'))) < geracoes_sem_melhoria_max (motor s) \<and>
              \<not> criterio_parada_avancado (take i (historico_fitness s'))"
      proof (cases "i = length (historico_fitness s1)")
        case True
        then have "take i (historico_fitness s') = historico_fitness s1" by (simp add: c(1))
        with p2 False i1 show ?thesis by (metis snd_conv)
      next
        case False
        with i h1 have "length (historico_fitness s1) < i" by simp
        with i d mx show ?thesis by simp
      qed
    qed
    from a mesma_configuracao_trans[OF cf b] ex mid e mx h1 show ?thesis by simp
  qed
qed





lemma executar_historico:
  assumes "executar ag mg t u g = Inr ((sol, hf, hc), ag', g')"
    and "melhor_fitness ag = None" and "geracoes_sem_melhoria ag = 0"
  shows "(hf \<noteq> [] \<longrightarrow> geracoes_sem_melhoria ag' = snd (registro hf)) \<and>
         (\<forall>i. 0 < i \<and> i < length hf \<longrightarrow>
              snd (registro (take i hf)) < geracoes_sem_melhoria_max ag \<and>
              \<not> criterio_parada_avancado (take i hf)) \<and>
         length hc = length hf \<and> length hf \<le> nat mg \<and>
         (sol \<noteq> None \<longrightarrow> length hf = nat mg \<or> criterio_parada_avancado hf \<or>
            geracoes_sem_melhoria_max ag \<le> geracoes_sem_melhoria ag')"
proof -
  from executar_res[OF assms(1)] show ?thesis
  proof
    assume "sol = None \<and> hf = [] \<and> hc = []"
    then show ?thesis by simp
  next
    assume "\<exists>c ag0 g0 s. sol = Some c \<and> gerar_populacao_inicial ag g = Inr (ag0, g0) \<and>
            laco_geracoes (nat mg) t u
              \<lparr>motor = ag0, historico_fitness = [], historico_custo = [], fonte = g0\<rparr> = Inr s \<and>
            hf = historico_fitness s \<and> hc = historico_custo s \<and>
            ag' = avaliar_populacao (motor s) \<and> max_por_fitness (populacao ag') = Inr c"
    then obtain c ag0 g0 s where
      ge: "gerar_populacao_inicial ag g = Inr (ag0, g0)"
      and la: "laco_geracoes (nat mg) t u
              \<lparr>motor = ag0, historico_fitness = [], historico_custo = [], fonte = g0\<rparr> = Inr s"
      and hf: "hf = historico_fitness s" and hc: "hc = historico_custo s"
      and ag': "ag' = avaliar_populacao (motor s)" by blast
    let ?s0 = "\<lparr>motor = ag0, historico_fitness = [], historico_custo = [], fonte = g0\<rparr>"
    from gerar_res[OF ge] assms(2,3) have
      i0: "(melhor_fitness (motor ?s0), geracoes_sem_melhoria (motor ?s0))
             = registro (historico_fitness ?s0)"
      and mx: "geracoes_sem_melhoria_max ag0 = geracoes_sem_melhoria_max ag"
      by (simp_all add: mesma_configuracao_def)
    from laco_registro[OF la i0] mx have
      a: "(melhor_fitness (motor s), geracoes_sem_melhoria (motor s)) = registro hf"
      and b: "length hf \<le> nat mg" "length hc = length hf"
      and d: "\<forall>i. 0 < i \<and> i < length hf \<longrightarrow>
              snd (registro (take i hf)) < geracoes_sem_melhoria_max ag \<and>
              \<not> criterio_parada_avancado (take i hf)"
      and e: "length hf = nat mg \<or> criterio_parada_avancado hf \<or>
          geracoes_sem_melhoria_max ag \<le> geracoes_sem_melhoria (motor s)"
      by (auto simp: hf hc)
    have "geracoes_sem_melhoria ag' = geracoes_sem_melhoria (motor s)"
      by (simp add: ag' avaliar_populacao_def)
    moreover from a have "geracoes_sem_melhoria (motor s) = snd (registro hf)"
      by (cases "registro hf") simp
    ultimately show ?thesis using b d e by simp
  qed
qed

section \<open>Stopping by stagnation\<close>


lemma cinco: "nat 5 = Suc (Suc (Suc (Suc (Suc 0))))"
  by simp

lemma execucao_estagnada:
  "executar (AlgoritmoGenetico [pessoa_lis] ''FCO'' 1 0.1 1 2 1 100 100) 5 ''uniforme'' False
     (sorteios [])
   = Inr ((Some (Cromossomo [ida_lis] [volta_lis]\<lparr>fitness := - 230\<rparr>),
           [- 230, - 230, - 230], [230, 230, 230]),
          (AlgoritmoGenetico [pessoa_lis] ''FCO'' 1 0.1 1 2 1 100 100)
            \<lparr>populacao := [Cromossomo [ida_lis] [volta_lis]\<lparr>fitness := - 230\<rparr>],
             melhor_fitness := Some (- 230), geracoes_sem_melhoria := 2\<rparr>,
          sorteios [])"
  unfolding executar_def cinco
  by (simp add: AlgoritmoGenetico_def gerar_populacao_inicial_def random_choice_def
      Cromossomo_def geracao_def avaliar_populacao_def calcular_fitness_def
      criterio_parada_avancado_def evoluir_geracao_def elite_size_def py_int_def prefixo_def
      preencher.simps horas_def Let_def exemplos)



lemma criterio_constante:
  assumes "20 \<le> length h" and "last h = h ! (length h - 20)"
  shows "criterio_parada_avancado h"
proof -
  have "0 \<le> \<bar>h ! (length h - 20)\<bar> / 1000" by simp
  then have "0 < \<bar>h ! (length h - 20)\<bar> / 1000 + 1 / 1000000000" by linarith
  with assms show ?thesis by (simp add: criterio_parada_avancado_def Let_def)
qed

text \<open>The convergence test ends a run as soon as twenty recorded values in a row are equal:
  no history holds more than twenty equal values in a row, and a stretch as in the theorem
  above is only there for a limit of at most 19.\<close>

lemma historico_constante_limitado:
  assumes "melhor_fitness ag = None" and "geracoes_sem_melhoria ag = 0"
    and "executar ag max_geracoes tipo intel g = Inr ((sol, hf, hc), ag', g')"
    and "j + 19 < length hf" and "\<forall>k\<le>19. hf ! (j + k) = hf ! j"
  shows "length hf = j + 20"
proof (rule ccontr)
  assume "length hf \<noteq> j + 20"
  with assms(4) have i: "0 < j + 20 \<and> j + 20 < length hf" by simp
  let ?P = "take (j + 20) hf"
  from executar_historico[OF assms(3,1,2)] have
    "\<forall>i. 0 < i \<and> i < length hf \<longrightarrow>
        snd (registro (take i hf)) < geracoes_sem_melhoria_max ag \<and>
        \<not> criterio_parada_avancado (take i hf)" by simp
  from this[rule_format, OF i] have n: "\<not> criterio_parada_avancado ?P" by simp
  have l: "length ?P = j + 20" using i by simp
  then have ne: "?P \<noteq> []" by auto
  from ne have "last ?P = ?P ! (length ?P - 1)" by (rule last_conv_nth)
  also have "length ?P - 1 = j + 19" unfolding l by simp
  finally have "last ?P = ?P ! (j + 19)" .
  also have "\<dots> = hf ! (j + 19)" by simp
  also have "\<dots> = hf ! j" using assms(5) by simp
  also have "\<dots> = ?P ! (length ?P - 20)" using l by simp
  finally have "last ?P = ?P ! (length ?P - 20)" .
  with criterio_constante[of ?P] l have "criterio_parada_avancado ?P" by simp
  with n show False ..
qed

section \<open>Elitism\<close>

lemma elite_size_avaliar [simp]: "elite_size (avaliar_populacao ag) = elite_size ag"
  by (simp add: elite_size_def avaliar_populacao_def)

lemma elite_size_registro [simp]:
  "elite_size (ag\<lparr>melhor_fitness := m, geracoes_sem_melhoria := k\<rparr>) = elite_size ag"
  by (simp add: elite_size_def)

lemma avaliada_membro:
  "x \<in> set (populacao (avaliar_populacao ag)) \<Longrightarrow>
   fitness x = calcular_fitness ag x \<and>
   (\<exists>c\<in>set (populacao ag). calcular_fitness ag c = fitness x)"
  by (auto simp: avaliar_populacao_def)

lemma avaliada_de:
  "c \<in> set (populacao ag) \<Longrightarrow>
   \<exists>x\<in>set (populacao (avaliar_populacao ag)). fitness x = calcular_fitness ag c"
  by (auto simp: avaliar_populacao_def)

lemma avaliada_vazia [simp]: "populacao (avaliar_populacao ag) = [] \<longleftrightarrow> populacao ag = []"
  by (simp add: avaliar_populacao_def)

lemma geracao_elitismo:
  assumes "geracao t u s = Inr (parar, s')" and "populacao (motor s) \<noteq> []"
  shows "\<exists>f. historico_fitness s' = historico_fitness s @ [f] \<and>
     (\<forall>c\<in>set (populacao (motor s)). calcular_fitness (motor s) c \<le> f) \<and>
     mesma_configuracao (motor s) (motor s') \<and>
     (1 \<le> elite_size (motor s) \<and> 1 \<le> tamanho_populacao (motor s) \<longrightarrow>
        populacao (motor s') \<noteq> [] \<and>
        (\<exists>e\<in>set (populacao (motor s')). f \<le> calcular_fitness (motor s') e))"
proof -
  let ?ag = "motor s"
  let ?ev = "populacao (avaliar_populacao ?ag)"
  from geracao_res[OF assms(1)] obtain m where gm:
    "max_por_fitness ?ev = Inr m \<and>
     historico_fitness s' = historico_fitness s @ [fitness m] \<and>
     length (historico_custo s') = Suc (length (historico_custo s)) \<and>
     (melhor_fitness (motor s'), geracoes_sem_melhoria (motor s'))
       = registrar (melhor_fitness (motor s), geracoes_sem_melhoria (motor s)) (fitness m) \<and>
     mesma_configuracao (motor s) (motor s') \<and>
     (parar \<longrightarrow>
        (criterio_parada_avancado (historico_fitness s') \<or>
         geracoes_sem_melhoria_max (motor s) \<le> geracoes_sem_melhoria (motor s')) \<and>
        populacao (motor s') = ?ev) \<and>
     (\<not> parar \<longrightarrow>
        \<not> criterio_parada_avancado (historico_fitness s') \<and>
        geracoes_sem_melhoria (motor s') < geracoes_sem_melhoria_max (motor s) \<and>
        (\<exists>mf k g'. evoluir_geracao
            ((avaliar_populacao (motor s))\<lparr>melhor_fitness := mf, geracoes_sem_melhoria := k\<rparr>)
            t u (fonte s) = Inr (motor s', g')))" ..
  then have mx: "max_por_fitness ?ev = Inr m"
    and h: "historico_fitness s' = historico_fitness s @ [fitness m]"
    and cf: "mesma_configuracao (motor s) (motor s')"
    and p1: "parar \<longrightarrow> populacao (motor s') = ?ev"
    and p2: "\<not> parar \<longrightarrow> (\<exists>mf k g'. evoluir_geracao
            ((avaliar_populacao (motor s))\<lparr>melhor_fitness := mf, geracoes_sem_melhoria := k\<rparr>)
            t u (fonte s) = Inr (motor s', g'))"
    by blast+
  from max_por_fitness_res[OF mx] have m: "m \<in> set ?ev"
    and ms: "\<forall>c\<in>set ?ev. fitness c \<le> fitness m" by auto
  have todos: "\<forall>c\<in>set (populacao ?ag). calcular_fitness ?ag c \<le> fitness m"
  proof
    fix c assume "c \<in> set (populacao ?ag)"
    from avaliada_de[OF this] obtain x where "x \<in> set ?ev" "fitness x = calcular_fitness ?ag c"
      by blast
    with ms show "calcular_fitness ?ag c \<le> fitness m" by auto
  qed
  have elit: "populacao (motor s') \<noteq> [] \<and>
        (\<exists>e\<in>set (populacao (motor s')). fitness m \<le> calcular_fitness (motor s') e)"
    if e: "1 \<le> elite_size ?ag" "1 \<le> tamanho_populacao ?ag"
  proof (cases parar)
    case True
    with p1 have pp: "populacao (motor s') = ?ev" by simp
    from avaliada_membro[OF m] have "fitness m = calcular_fitness ?ag m" by simp
    then have "fitness m \<le> calcular_fitness (motor s') m"
      using calcular_fitness_config[OF cf] by simp
    with m pp assms(2) show ?thesis by auto
  next
    case False
    with p2 obtain mf k g' where ev: "evoluir_geracao
            ((avaliar_populacao ?ag)\<lparr>melhor_fitness := mf, geracoes_sem_melhoria := k\<rparr>)
            t u (fonte s) = Inr (motor s', g')" by blast
    let ?a1 = "(avaliar_populacao ?ag)\<lparr>melhor_fitness := mf, geracoes_sem_melhoria := k\<rparr>"
    have a1: "populacao ?a1 = ?ev" by simp
    have "populacao ?a1 \<noteq> []" using assms(2) by simp
    moreover have "1 \<le> elite_size ?a1" using e by simp
    moreover have "1 \<le> tamanho_populacao ?a1" using e by (simp add: avaliar_populacao_def)
    ultimately have r: "populacao (motor s') \<noteq> [] \<and> hd (populacao (motor s')) \<in> set (populacao ?a1) \<and>
         (\<forall>c\<in>set (populacao ?a1). fitness c \<le> fitness (hd (populacao (motor s'))))"
      by (rule evoluir_elitismo[OF ev])
    define e where "e = hd (populacao (motor s'))"
    from r have ne: "populacao (motor s') \<noteq> []" and e1: "e \<in> set ?ev"
      and e2: "\<forall>c\<in>set ?ev. fitness c \<le> fitness e"
      unfolding e_def a1 by blast+
    from ne have e3: "e \<in> set (populacao (motor s'))" by (simp add: e_def)
    from avaliada_membro[OF e1] have "fitness e = calcular_fitness ?ag e" by simp
    then have "fitness e = calcular_fitness (motor s') e"
      using calcular_fitness_config[OF cf] by simp
    with e2 m have "fitness m \<le> calcular_fitness (motor s') e" by auto
    with ne e3 show ?thesis by blast
  qed
  from h todos cf elit show ?thesis by blast
qed


lemma laco_passo:
  assumes "laco_geracoes (Suc k) t u s = Inr s'"
  obtains parar s1 where "geracao t u s = Inr (parar, s1)"
    "(parar \<and> s' = s1) \<or> (\<not> parar \<and> laco_geracoes k t u s1 = Inr s')"
  using assms by (auto split: sum.splits if_splits)


lemma laco_elitismo:
  assumes "laco_geracoes k t u s = Inr s'"
    and "1 \<le> elite_size (motor s)" and "1 \<le> tamanho_populacao (motor s)"
    and "populacao (motor s) \<noteq> []" and "sorted (historico_fitness s)"
    and "\<forall>f\<in>set (historico_fitness s).
           \<exists>c\<in>set (populacao (motor s)). f \<le> calcular_fitness (motor s) c"
  shows "populacao (motor s') \<noteq> [] \<and> sorted (historico_fitness s') \<and>
         (\<forall>f\<in>set (historico_fitness s').
            \<exists>c\<in>set (populacao (motor s')). f \<le> calcular_fitness (motor s') c)"
  using assms
proof (induction k arbitrary: s)
  case 0
  then show ?case by simp
next
  case (Suc k)
  from Suc.prems(1) obtain parar s1 where g: "geracao t u s = Inr (parar, s1)"
    and r: "(parar \<and> s' = s1) \<or> (\<not> parar \<and> laco_geracoes k t u s1 = Inr s')"
    by (rule laco_passo)
  from geracao_elitismo[OF g Suc.prems(4)] Suc.prems(2,3) obtain f e where
    h: "historico_fitness s1 = historico_fitness s @ [f]"
    and t: "\<forall>c\<in>set (populacao (motor s)). calcular_fitness (motor s) c \<le> f"
    and cf: "mesma_configuracao (motor s) (motor s1)"
    and ne: "populacao (motor s1) \<noteq> []"
    and e: "e \<in> set (populacao (motor s1))" "f \<le> calcular_fitness (motor s1) e"
    by blast
  have old: "\<forall>x\<in>set (historico_fitness s). x \<le> f"
  proof
    fix x assume "x \<in> set (historico_fitness s)"
    with Suc.prems(6) obtain c where "c \<in> set (populacao (motor s))"
      "x \<le> calcular_fitness (motor s) c" by blast
    with t show "x \<le> f" by force
  qed
  have s1: "sorted (historico_fitness s1)"
    unfolding h using Suc.prems(5) old by (simp add: sorted_append)
  have b1: "\<forall>x\<in>set (historico_fitness s1).
           \<exists>c\<in>set (populacao (motor s1)). x \<le> calcular_fitness (motor s1) c"
  proof
    fix x assume "x \<in> set (historico_fitness s1)"
    then have "x \<le> f" using old h by auto
    with e show "\<exists>c\<in>set (populacao (motor s1)). x \<le> calcular_fitness (motor s1) c"
      by force
  qed
  have c1: "1 \<le> elite_size (motor s1)" "1 \<le> tamanho_populacao (motor s1)"
    using Suc.prems(2,3) elite_size_config[OF cf] cf by (simp_all add: mesma_configuracao_def)
  from r show ?case
  proof
    assume "parar \<and> s' = s1"
    with ne s1 b1 show ?thesis by simp
  next
    assume "\<not> parar \<and> laco_geracoes k t u s1 = Inr s'"
    then have "laco_geracoes k t u s1 = Inr s'" ..
    from Suc.IH[OF this c1 ne s1 b1] show ?thesis .
  qed
qed

lemma executar_elitismo:
  assumes "executar ag mg t u g = Inr ((sol, hf, hc), ag', g')"
    and "1 \<le> elite_size ag" and "1 \<le> tamanho_populacao ag"
  shows "sorted hf \<and> (\<forall>c. sol = Some c \<longrightarrow> (\<forall>f\<in>set hf. f \<le> fitness c))"
proof -
  from executar_res[OF assms(1)] show ?thesis
  proof
    assume "sol = None \<and> hf = [] \<and> hc = []"
    then show ?thesis by simp
  next
    assume "\<exists>c ag0 g0 s. sol = Some c \<and> gerar_populacao_inicial ag g = Inr (ag0, g0) \<and>
            laco_geracoes (nat mg) t u
              \<lparr>motor = ag0, historico_fitness = [], historico_custo = [], fonte = g0\<rparr> = Inr s \<and>
            hf = historico_fitness s \<and> hc = historico_custo s \<and>
            ag' = avaliar_populacao (motor s) \<and> max_por_fitness (populacao ag') = Inr c"
    then obtain c ag0 g0 s where sol: "sol = Some c"
      and ge: "gerar_populacao_inicial ag g = Inr (ag0, g0)"
      and la: "laco_geracoes (nat mg) t u
              \<lparr>motor = ag0, historico_fitness = [], historico_custo = [], fonte = g0\<rparr> = Inr s"
      and hf: "hf = historico_fitness s"
      and ag': "ag' = avaliar_populacao (motor s)"
      and mx: "max_por_fitness (populacao ag') = Inr c" by blast
    let ?s0 = "\<lparr>motor = ag0, historico_fitness = [], historico_custo = [], fonte = g0\<rparr>"
    from gerar_res[OF ge] have cf: "mesma_configuracao ag ag0"
      and len: "length (populacao ag0) = nat (tamanho_populacao ag)" by auto
    from len assms(3) have ne: "populacao (motor ?s0) \<noteq> []" by auto
    have c0: "1 \<le> elite_size (motor ?s0)" "1 \<le> tamanho_populacao (motor ?s0)"
      using assms(2,3) elite_size_config[OF cf] cf by (simp_all add: mesma_configuracao_def)
    have "sorted (historico_fitness ?s0)" by simp
    moreover have "\<forall>f\<in>set (historico_fitness ?s0).
           \<exists>c\<in>set (populacao (motor ?s0)). f \<le> calcular_fitness (motor ?s0) c" by simp
    ultimately have r: "populacao (motor s) \<noteq> [] \<and> sorted (historico_fitness s) \<and>
         (\<forall>f\<in>set (historico_fitness s).
            \<exists>c\<in>set (populacao (motor s)). f \<le> calcular_fitness (motor s) c)"
      by (rule laco_elitismo[OF la c0 ne])
    have "\<forall>f\<in>set hf. f \<le> fitness c"
    proof
      fix f assume "f \<in> set hf"
      with r hf obtain c1 where c1: "c1 \<in> set (populacao (motor s))"
        "f \<le> calcular_fitness (motor s) c1" by blast
      from avaliada_de[OF c1(1)] obtain x where
        "x \<in> set (populacao ag')" "fitness x = calcular_fitness (motor s) c1"
        unfolding ag' by blast
      with max_por_fitness_res[OF mx] c1(2) show "f \<le> fitness c" by force
    qed
    with r hf sol show ?thesis by simp
  qed
qed


text \<open>
  Claim C2, as amended. When the number of elite chromosomes,
  \<open>int(taxa_elite * tamanho_populacao)\<close>, and the population size are both at least 1,
  the generation that \<open>evoluir_geracao\<close> builds from an evaluated population that is not
  empty is not empty either and its best fitness is at least the best fitness before;
  and the best-fitness history that \<open>executar\<close> records never decreases.
\<close>

theorem elitismo_preserva_melhor:
  assumes "1 \<le> elite_size ag" and "1 \<le> tamanho_populacao ag"
  shows "(populacao ag \<noteq> [] \<and>
          evoluir_geracao (avaliar_populacao ag) tipo intel g = Inr (ag1, g1) \<longrightarrow>
            populacao ag1 \<noteq> [] \<and>
            Max (calcular_fitness ag ` set (populacao ag))
              \<le> Max (calcular_fitness ag ` set (populacao ag1))) \<and>
         (executar ag max_geracoes tipo intel g = Inr ((sol, hf, hc), ag', g') \<longrightarrow> sorted hf)"
proof (rule conjI; rule impI)
  assume h: "populacao ag \<noteq> [] \<and>
          evoluir_geracao (avaliar_populacao ag) tipo intel g = Inr (ag1, g1)"
  let ?ev = "populacao (avaliar_populacao ag)"
  from h have ev: "evoluir_geracao (avaliar_populacao ag) tipo intel g = Inr (ag1, g1)"
    and ne: "?ev \<noteq> []" by simp_all
  have "1 \<le> elite_size (avaliar_populacao ag)" using assms(1) by simp
  moreover have "1 \<le> tamanho_populacao (avaliar_populacao ag)"
    using assms(2) by (simp add: avaliar_populacao_def)
  ultimately have r: "populacao ag1 \<noteq> [] \<and> hd (populacao ag1) \<in> set ?ev \<and>
         (\<forall>c\<in>set ?ev. fitness c \<le> fitness (hd (populacao ag1)))"
    by (rule evoluir_elitismo[OF ev ne])
  define e where "e = hd (populacao ag1)"
  from r have n1: "populacao ag1 \<noteq> []" and e1: "e \<in> set ?ev"
    and e2: "\<forall>c\<in>set ?ev. fitness c \<le> fitness e" unfolding e_def by blast+
  from n1 have e3: "e \<in> set (populacao ag1)" by (simp add: e_def)
  from avaliada_membro[OF e1] have fe: "fitness e = calcular_fitness ag e" by simp
  have "\<forall>c\<in>set (populacao ag). calcular_fitness ag c \<le> calcular_fitness ag e"
  proof
    fix c assume "c \<in> set (populacao ag)"
    from avaliada_de[OF this] obtain x where "x \<in> set ?ev" "fitness x = calcular_fitness ag c"
      by blast
    with e2 fe show "calcular_fitness ag c \<le> calcular_fitness ag e" by force
  qed
  moreover have "calcular_fitness ag e \<le> Max (calcular_fitness ag ` set (populacao ag1))"
    using e3 by simp
  ultimately have "\<forall>v\<in>calcular_fitness ag ` set (populacao ag).
      v \<le> Max (calcular_fitness ag ` set (populacao ag1))" by force
  moreover have "calcular_fitness ag ` set (populacao ag) \<noteq> {}" using h by simp
  ultimately have "Max (calcular_fitness ag ` set (populacao ag))
              \<le> Max (calcular_fitness ag ` set (populacao ag1))"
    by (simp add: Max_le_iff)
  with n1 show "populacao ag1 \<noteq> [] \<and>
            Max (calcular_fitness ag ` set (populacao ag))
              \<le> Max (calcular_fitness ag ` set (populacao ag1))" ..
next
  assume "executar ag max_geracoes tipo intel g = Inr ((sol, hf, hc), ag', g')"
  from executar_elitismo[OF this assms] show "sorted hf" ..
qed

text \<open>An engine that keeps its single chromosome as elite, and the run of three equal
  generations.\<close>

theorem elitismo_preserva_melhor_witness:
  "1 \<le> elite_size ((AlgoritmoGenetico [pessoa_mad] ''FCO'' 1 1 1 2 1 100 100)
         \<lparr>populacao := [Cromossomo [ida_mad_cedo] [volta_mad_tarde]]\<rparr>) \<and>
   1 \<le> tamanho_populacao ((AlgoritmoGenetico [pessoa_mad] ''FCO'' 1 1 1 2 1 100 100)
         \<lparr>populacao := [Cromossomo [ida_mad_cedo] [volta_mad_tarde]]\<rparr>) \<and>
   evoluir_geracao
     (avaliar_populacao ((AlgoritmoGenetico [pessoa_mad] ''FCO'' 1 1 1 2 1 100 100)
         \<lparr>populacao := [Cromossomo [ida_mad_cedo] [volta_mad_tarde]]\<rparr>))
     ''uniforme'' False (sorteios [0, 0, 1])
   = Inr ((AlgoritmoGenetico [pessoa_mad] ''FCO'' 1 1 1 2 1 100 100)
            \<lparr>populacao := [Cromossomo [ida_mad_cedo] [volta_mad_tarde]\<lparr>fitness := - 200\<rparr>]\<rparr>,
          sorteios [0, 0, 1]) \<and>
   Max (calcular_fitness (AlgoritmoGenetico [pessoa_mad] ''FCO'' 1 1 1 2 1 100 100)
          ` set [Cromossomo [ida_mad_cedo] [volta_mad_tarde]])
   \<le> Max (calcular_fitness (AlgoritmoGenetico [pessoa_mad] ''FCO'' 1 1 1 2 1 100 100)
          ` set [Cromossomo [ida_mad_cedo] [volta_mad_tarde]\<lparr>fitness := - 200\<rparr>]) \<and>
   (\<exists>sol hc ag' g'.
      executar (AlgoritmoGenetico [pessoa_lis] ''FCO'' 1 0.1 1 2 1 100 100) 5 ''uniforme'' False
        (sorteios []) = Inr ((sol, [- 230, - 230, - 230], hc), ag', g')) \<and>
   sorted [- 230, - 230, - 230 :: real]"
proof -
  let ?ag = "AlgoritmoGenetico [pessoa_lis] ''FCO'' 1 0.1 1 2 1 100 100"
  let ?am = "(AlgoritmoGenetico [pessoa_mad] ''FCO'' 1 1 1 2 1 100 100)
         \<lparr>populacao := [Cromossomo [ida_mad_cedo] [volta_mad_tarde]]\<rparr>"
  have a: "1 \<le> elite_size ?ag" and b: "1 \<le> tamanho_populacao ?ag"
    and c: "1 \<le> elite_size ?am" and d: "1 \<le> tamanho_populacao ?am"
    by (simp_all add: AlgoritmoGenetico_def elite_size_def py_int_def)
  have e: "populacao ?am \<noteq> []" by simp
  have ev: "evoluir_geracao (avaliar_populacao ?am) ''uniforme'' False (sorteios [0, 0, 1])
   = Inr ((AlgoritmoGenetico [pessoa_mad] ''FCO'' 1 1 1 2 1 100 100)
            \<lparr>populacao := [Cromossomo [ida_mad_cedo] [volta_mad_tarde]\<lparr>fitness := - 200\<rparr>]\<rparr>,
          sorteios [0, 0, 1])"
    by (simp add: AlgoritmoGenetico_def Cromossomo_def avaliar_populacao_def calcular_fitness_def
      evoluir_geracao_def elite_size_def py_int_def prefixo_def preencher.simps
      horas_def Let_def exemplos)
  from elitismo_preserva_melhor[OF c d, of "''uniforme''" False "sorteios [0, 0, 1]"] e ev
  have m: "Max (calcular_fitness ?am ` set (populacao ?am))
   \<le> Max (calcular_fitness ?am
          ` set [Cromossomo [ida_mad_cedo] [volta_mad_tarde]\<lparr>fitness := - 200\<rparr>])"
    by simp
  from elitismo_preserva_melhor[OF a b] execucao_estagnada
  have s: "sorted [- 230, - 230, - 230 :: real]" by blast
  from m have m': "Max (calcular_fitness (AlgoritmoGenetico [pessoa_mad] ''FCO'' 1 1 1 2 1 100 100)
          ` set [Cromossomo [ida_mad_cedo] [volta_mad_tarde]])
   \<le> Max (calcular_fitness (AlgoritmoGenetico [pessoa_mad] ''FCO'' 1 1 1 2 1 100 100)
          ` set [Cromossomo [ida_mad_cedo] [volta_mad_tarde]\<lparr>fitness := - 200\<rparr>])"
    by simp
  from c d ev m' s execucao_estagnada show ?thesis by blast
qed

text \<open>
  Claim C2 as stated fails: with \<open>taxa_elite = 0.5\<close> and a population of one,
  \<open>int(0.5)\<close> is 0, no chromosome is kept, and at mutation rate 1 the only child takes
  the dearer outbound flight: the best fitness falls from -200 to -300.
\<close>

theorem elitismo_taxa_positiva_counterexample:
  "0 < taxa_elite ((AlgoritmoGenetico [pessoa_mad] ''FCO'' 1 1 0.5 50 1 100 100)
         \<lparr>populacao := [Cromossomo [ida_mad_cedo] [volta_mad_tarde]]\<rparr>) \<and>
   1 \<le> tamanho_populacao ((AlgoritmoGenetico [pessoa_mad] ''FCO'' 1 1 0.5 50 1 100 100)
         \<lparr>populacao := [Cromossomo [ida_mad_cedo] [volta_mad_tarde]]\<rparr>) \<and>
   evoluir_geracao
     (avaliar_populacao ((AlgoritmoGenetico [pessoa_mad] ''FCO'' 1 1 0.5 50 1 100 100)
         \<lparr>populacao := [Cromossomo [ida_mad_cedo] [volta_mad_tarde]]\<rparr>))
     ''uniforme'' False (sorteios [0, 0, 1])
   = Inr ((AlgoritmoGenetico [pessoa_mad] ''FCO'' 1 1 0.5 50 1 100 100)
            \<lparr>populacao := [Cromossomo [ida_mad_tarde] [volta_mad_tarde]]\<rparr>, sorteios []) \<and>
   calcular_fitness (AlgoritmoGenetico [pessoa_mad] ''FCO'' 1 1 0.5 50 1 100 100)
     (Cromossomo [ida_mad_tarde] [volta_mad_tarde])
   < calcular_fitness (AlgoritmoGenetico [pessoa_mad] ''FCO'' 1 1 0.5 50 1 100 100)
     (Cromossomo [ida_mad_cedo] [volta_mad_tarde])"
  by (simp add: AlgoritmoGenetico_def Cromossomo_def avaliar_populacao_def calcular_fitness_def
      evoluir_geracao_def elite_size_def py_int_def prefixo_def preencher.simps
      selecionar_pais_def selecao_torneio_def gerar_filhos_def cruzar_def cruzamento_uniforme_def
      mutar_def mutacao_tradicional_def mutar_gene_def random_random_def random_choice_def
      atribuir_def horas_def Let_def exemplos)





end
